theory Spec2Isabelle
  imports Main "HOL-Library.Char_ord" "HOL-Library.List_Lexorder" "HOL-Library.Sublist"
begin

section \<open>Text\<close>

text \<open>
  A Python \<open>str\<close> is modelled as a \<^typ>\<open>string\<close> whose characters are code points
  below 256. The character classes below are the ones Python's \<open>str.isspace\<close>,
  \<open>str.lower\<close> and the \<open>re\<close> module (\<open>\s\<close>, \<open>\b\<close>) use on that range.
\<close>

definition is_space :: "char \<Rightarrow> bool" where
  "is_space c = (c \<in> set [CHR 0x09, CHR 0x0A, CHR 0x0B, CHR 0x0C, CHR 0x0D,
                            CHR 0x1C, CHR 0x1D, CHR 0x1E, CHR 0x1F, CHR 0x20,
                            CHR 0x85, CHR 0xA0])"

definition is_ident_char :: "char \<Rightarrow> bool" where
  \<comment> \<open>the class \<open>[A-Za-z0-9_]\<close>\<close>
  "is_ident_char c =
     (let n = (of_char c :: nat)
      in (65 \<le> n \<and> n \<le> 90) \<or> (97 \<le> n \<and> n \<le> 122) \<or> (48 \<le> n \<and> n \<le> 57) \<or> n = 95)"

definition is_word_char :: "char \<Rightarrow> bool" where
  \<comment> \<open>\<open>\w\<close> of a Unicode pattern: alphanumeric or underscore\<close>
  "is_word_char c =
     (let n = (of_char c :: nat)
      in is_ident_char c \<or> n = 170 \<or> n = 178 \<or> n = 179 \<or> n = 181 \<or> n = 185 \<or> n = 186
         \<or> n = 188 \<or> n = 189 \<or> n = 190
         \<or> (192 \<le> n \<and> n \<le> 214) \<or> (216 \<le> n \<and> n \<le> 246) \<or> 248 \<le> n)"

definition lower_char :: "char \<Rightarrow> char" where
  \<comment> \<open>the upper-case letters are 65..90 and 192..222 without 215; adding 32 sets bit 5\<close>
  "lower_char c =
     (case c of Char b0 b1 b2 b3 b4 b5 b6 b7 \<Rightarrow>
        (let n = (of_char c :: nat)
         in if (65 \<le> n \<and> n \<le> 90) \<or> (192 \<le> n \<and> n \<le> 222 \<and> n \<noteq> 215)
            then Char b0 b1 b2 b3 b4 True b6 b7 else c))"

definition lower :: "string \<Rightarrow> string" where
  "lower s = map lower_char s"

definition lstrip :: "string \<Rightarrow> string" where
  "lstrip s = dropWhile is_space s"

definition rstrip :: "string \<Rightarrow> string" where
  "rstrip s = rev (dropWhile is_space (rev s))"

definition strip :: "string \<Rightarrow> string" where
  "strip s = rstrip (lstrip s)"

text \<open>\<open>k in s\<close> on strings: \<open>k\<close> occurs in \<open>s\<close> as a contiguous substring.\<close>

fun is_substr :: "string \<Rightarrow> string \<Rightarrow> bool" where
  "is_substr k [] = (k = [])"
| "is_substr k (c # cs) = (prefix k (c # cs) \<or> is_substr k cs)"

text \<open>\<open>s.split(d)\<close> for a one-character separator: never the empty list.\<close>

fun split_on :: "char \<Rightarrow> string \<Rightarrow> string list" where
  "split_on d [] = [[]]"
| "split_on d (c # cs) =
     (if c = d then [] # split_on d cs
      else (case split_on d cs of [] \<Rightarrow> [[c]] | w # ws \<Rightarrow> (c # w) # ws))"

text \<open>\<open>s.split('->', 1)[1]\<close> when \<open>'->' in s\<close>: the text after the first arrow.\<close>

fun after_arrow :: "string \<Rightarrow> string option" where
  "after_arrow (c1 # c2 # cs) =
     (if c1 = CHR ''-'' \<and> c2 = CHR ''>'' then Some cs else after_arrow (c2 # cs))"
| "after_arrow _ = None"

text \<open>
  \<open>re.search(r'\((.*?)\)', s)\<close>, group 1: from the leftmost opening parenthesis that is
  followed by a closing one with no newline in between, the text up to the first closing
  parenthesis (the dot does not match a newline, the star is lazy).
\<close>

fun lazy_to_close :: "string \<Rightarrow> string option" where
  "lazy_to_close [] = None"
| "lazy_to_close (c # cs) =
     (if c = CHR '')'' then Some []
      else if c = CHR 0x0A then None
      else map_option ((#) c) (lazy_to_close cs))"

fun paren_inner :: "string \<Rightarrow> string option" where
  "paren_inner [] = None"
| "paren_inner (c # cs) =
     (if c = CHR ''(''
      then (case lazy_to_close cs of Some inner \<Rightarrow> Some inner | None \<Rightarrow> paren_inner cs)
      else paren_inner cs)"


section \<open>Impact scorer (common/common_impact.py)\<close>

subsection \<open>Values of a configuration\<close>

text \<open>
  A configuration is a dict read from JSON or written in Python; its values are not
  typed by the code, so they are modelled as dynamically typed values. A dict is an
  association list in insertion order, looked up by its first matching key.
  Floating-point numbers are outside the model.
\<close>

datatype pyval =
    PNone
  | PBool bool
  | PInt int
  | PStr string
  | PList "pyval list"
  | PDict "(string \<times> pyval) list"

type_synonym pydict = "(string \<times> pyval) list"

datatype py_error = AttributeError | TypeError | ValueError | KeyError | IndexError

text \<open>Truth value of an object, as used by \<open>or\<close> and \<open>if\<close>.\<close>

fun truthy :: "pyval \<Rightarrow> bool" where
  "truthy PNone = False"
| "truthy (PBool b) = b"
| "truthy (PInt i) = (i \<noteq> 0)"
| "truthy (PStr s) = (s \<noteq> [])"
| "truthy (PList xs) = (xs \<noteq> [])"
| "truthy (PDict d) = (d \<noteq> [])"

definition py_or :: "pyval \<Rightarrow> pyval \<Rightarrow> pyval" where
  "py_or a b = (if truthy a then a else b)"

definition dict_get :: "pydict \<Rightarrow> string \<Rightarrow> pyval \<Rightarrow> pyval" where
  "dict_get d k dflt = (case map_of d k of Some v \<Rightarrow> v | None \<Rightarrow> dflt)"

text \<open>\<open>x.get(k, dflt)\<close>: only a dict has the method.\<close>

fun py_get :: "pyval \<Rightarrow> string \<Rightarrow> pyval \<Rightarrow> py_error + pyval" where
  "py_get (PDict d) k dflt = Inr (dict_get d k dflt)"
| "py_get _ k dflt = Inl AttributeError"

text \<open>\<open>x.items()\<close>: only a dict has the method.\<close>

fun py_items :: "pyval \<Rightarrow> py_error + (string \<times> pyval) list" where
  "py_items (PDict d) = Inr d"
| "py_items _ = Inl AttributeError"

text \<open>
  \<open>int(x)\<close>. What the built-in accepts as the text of an integer depends on the
  interpreter (digit limit, separators), so the conversion of a \<open>str\<close> is the
  parameter \<open>int_of_str\<close>; every result below holds for any such function.
\<close>

fun py_int :: "(string \<Rightarrow> int option) \<Rightarrow> pyval \<Rightarrow> py_error + int" where
  "py_int ios (PInt i) = Inr i"
| "py_int ios (PBool b) = Inr (if b then 1 else 0)"
| "py_int ios (PStr s) = (case ios s of Some i \<Rightarrow> Inr i | None \<Rightarrow> Inl ValueError)"
| "py_int ios PNone = Inl TypeError"
| "py_int ios (PList xs) = Inl TypeError"
| "py_int ios (PDict d) = Inl TypeError"

definition ebind :: "'e + 'a \<Rightarrow> ('a \<Rightarrow> 'e + 'b) \<Rightarrow> 'e + 'b" where
  "ebind m f = (case m of Inl e \<Rightarrow> Inl e | Inr x \<Rightarrow> f x)"

subsection \<open>Default profile and its lookup\<close>

definition IMPACT_DEFAULT_CONFIG :: pydict where
  "IMPACT_DEFAULT_CONFIG =
    [(''thresholds'', PDict [(''critical'', PInt 95), (''high'', PInt 70), (''medium'', PInt 45)]),
     (''weights'', PDict
       [(''per_mod'', PInt 10),
        (''class_keywords'', PDict
          [(''vehicle'', PInt 15), (''quest'', PInt 12), (''player'', PInt 12),
           (''inventory'', PInt 10), (''damage'', PInt 10), (''ui'', PInt 8),
           (''hud'', PInt 8), (''ink'', PInt 6)]),
        (''method_keywords'', PDict
          [(''update'', PInt 12), (''tick'', PInt 12), (''initialize'', PInt 10),
           (''init'', PInt 10), (''onattach'', PInt 8), (''onunattach'', PInt 6),
           (''refresh'', PInt 8), (''calculate'', PInt 8), (''resolve'', PInt 8)]),
        (''signature'', PDict [(''per_arg'', PInt 3), (''has_return'', PInt 6)]),
        (''wrap_coexist_bonus'', PInt 12)])]"

text \<open>
  The state the scorer reads besides its arguments: the module-level cache
  \<open>_IMPACT_EXTERNAL_CACHE\<close>, and what the candidate files of \<open>_load_external_default\<close>
  hold at the time of the call, in search order (environment variable, working directory,
  package directory): \<open>None\<close> for a candidate that is missing, is not a file or does not
  parse as JSON.
\<close>

record impact_env =
  IMPACT_EXTERNAL_CACHE :: "pydict option"
  candidates :: "pyval option list"

fun first_valid :: "pyval option list \<Rightarrow> pydict option" where
  "first_valid [] = None"
| "first_valid (Some (PDict d) # rest) =
     (if ''thresholds'' \<in> set (map fst d) \<and> ''weights'' \<in> set (map fst d)
      then Some d else first_valid rest)"
| "first_valid (_ # rest) = first_valid rest"

definition load_external_default :: "impact_env \<Rightarrow> pydict option \<times> impact_env" where
  "load_external_default env =
     (case IMPACT_EXTERNAL_CACHE env of
        Some d \<Rightarrow> (Some d, env)
      | None \<Rightarrow>
          (case first_valid (candidates env) of
             Some d \<Rightarrow> (Some d, env\<lparr>IMPACT_EXTERNAL_CACHE := Some d\<rparr>)
           | None \<Rightarrow> (None, env\<lparr>IMPACT_EXTERNAL_CACHE := None\<rparr>)))"

definition get_default_impact_config :: "impact_env \<Rightarrow> pydict \<times> impact_env" where
  "get_default_impact_config env =
     (case load_external_default env of
        (Some d, env') \<Rightarrow> (if d \<noteq> [] then d else IMPACT_DEFAULT_CONFIG, env')
      | (None, env') \<Rightarrow> (IMPACT_DEFAULT_CONFIG, env'))"

subsection \<open>Symptom classification\<close>

definition SYMPTOM_KEYWORDS :: "(string \<times> string list) list" where
  "SYMPTOM_KEYWORDS =
    [(''uiHud'', [''ui'', ''hud'', ''ink'']),
     (''player'', [''player'', ''puppet'', ''equipment'']),
     (''vehicle'', [''vehicle'']),
     (''quest'', [''quest'', ''journal'', ''fact'']),
     (''inventory'', [''inventory'']),
     (''damage'', [''damage'', ''hit''])]"

fun first_symptom :: "(string \<times> string list) list \<Rightarrow> string \<Rightarrow> string" where
  "first_symptom [] s = ''other''"
| "first_symptom ((code, kws) # rest) s =
     (if list_ex (\<lambda>k. is_substr k s) kws then code else first_symptom rest s)"

definition classify_conflict_symptom :: "string \<Rightarrow> string \<Rightarrow> string" where
  "classify_conflict_symptom cls_name meth = first_symptom SYMPTOM_KEYWORDS (lower cls_name)"

subsection \<open>compute_impact_unified\<close>

record impact =
  severity :: string
  message :: string

type_synonym entry_dict = pydict

text \<open>The keyword loops: every keyword occurring in the name adds its weight.\<close>

fun keyword_score ::
  "(string \<Rightarrow> int option) \<Rightarrow> (string \<times> pyval) list \<Rightarrow> string \<Rightarrow> int \<Rightarrow> py_error + int" where
  "keyword_score ios [] name score = Inr score"
| "keyword_score ios ((kw, w) # rest) name score =
     (if is_substr kw name
      then ebind (py_int ios w) (\<lambda>n. keyword_score ios rest name (score + n))
      else keyword_score ios rest name score)"

text \<open>
  The inner \<open>try\<close> block on the first entry's signature: the number of non-blank
  comma-separated arguments and whether a non-void return type follows an arrow. A
  signature that is not a \<open>str\<close> makes \<open>re.search\<close> raise, which the block swallows,
  leaving both at their initial values.
\<close>

definition sig_args_count :: "string \<Rightarrow> nat" where
  "sig_args_count func_sig =
     (case paren_inner func_sig of
        None \<Rightarrow> 0
      | Some g \<Rightarrow>
          (let inner = strip g
           in if inner \<noteq> [] then length (filter (\<lambda>a. strip a \<noteq> []) (split_on CHR '','' inner))
              else 0))"

definition sig_has_return :: "string \<Rightarrow> bool" where
  "sig_has_return func_sig =
     (case after_arrow func_sig of
        None \<Rightarrow> False
      | Some rest \<Rightarrow> (let ret_part = strip rest in ret_part \<noteq> [] \<and> lower ret_part \<noteq> ''void''))"

fun sig_features :: "pyval \<Rightarrow> nat \<times> bool" where
  "sig_features (PStr s) = (if s \<noteq> [] then (sig_args_count s, sig_has_return s) else (0, False))"
| "sig_features _ = (0, False)"

definition first_func_sig :: "entry_dict list \<Rightarrow> pyval" where
  "first_func_sig entries =
     (case entries of
        [] \<Rightarrow> PStr ''''
      | e # _ \<Rightarrow> py_or (dict_get e ''func_sig'' PNone) (PStr ''''))"

text \<open>Line 116: \<open>weights = (cfg.get('weights') or {})\<close>.\<close>

definition weights_of :: "pydict \<Rightarrow> pyval" where
  "weights_of cfg = py_or (dict_get cfg ''weights'' PNone) (PDict [])"

text \<open>Lines 118 to 149: the score before the wrap bonus, or the exception raised on the
  way.\<close>

definition base_score ::
  "(string \<Rightarrow> int option) \<Rightarrow> pydict \<Rightarrow> string \<Rightarrow> string \<Rightarrow> string list \<Rightarrow> entry_dict list
   \<Rightarrow> py_error + int" where
  "base_score ios cfg cls meth mods entries =
     (let weights = weights_of cfg;
          mod_count = int (card (set mods));
          cls_l = lower cls;
          meth_l = lower meth
      in
      ebind (py_get weights ''per_mod'' (PInt 0)) (\<lambda>pm.
      ebind (py_int ios pm) (\<lambda>per_mod.
      ebind (py_get weights ''class_keywords'' PNone) (\<lambda>ck.
      ebind (py_items (py_or ck (PDict []))) (\<lambda>ck_items.
      ebind (keyword_score ios ck_items cls_l (per_mod * mod_count)) (\<lambda>score1.
      ebind (py_get weights ''method_keywords'' PNone) (\<lambda>mk.
      ebind (py_items (py_or mk (PDict []))) (\<lambda>mk_items.
      ebind (keyword_score ios mk_items meth_l score1) (\<lambda>score2.
      ebind (py_get weights ''signature'' PNone) (\<lambda>sg.
      let sig_w = py_or sg (PDict []) in
      ebind (py_get sig_w ''per_arg'' (PInt 0)) (\<lambda>pa.
      ebind (py_int ios pa) (\<lambda>per_arg.
      ebind (py_get sig_w ''has_return'' (PInt 0)) (\<lambda>hr.
      ebind (py_int ios hr) (\<lambda>has_ret_w.
      let (args_count, has_return) = sig_features (first_func_sig entries);
          score3 = score2 + per_arg * int args_count
      in Inr (if has_return then score3 + has_ret_w else score3)))))))))))))))"

text \<open>Line 151: \<open>int(weights.get('wrap_coexist_bonus', 0))\<close>.\<close>

definition wrap_coexist_bonus :: "(string \<Rightarrow> int option) \<Rightarrow> pydict \<Rightarrow> py_error + int" where
  "wrap_coexist_bonus ios cfg =
     ebind (py_get (weights_of cfg) ''wrap_coexist_bonus'' (PInt 0)) (py_int ios)"

text \<open>Lines 116 to 151: the total score; the bonus is only read when \<open>wrap_coexist\<close>
  holds.\<close>

definition impact_score ::
  "(string \<Rightarrow> int option) \<Rightarrow> pydict \<Rightarrow> string \<Rightarrow> string \<Rightarrow> string list \<Rightarrow> entry_dict list \<Rightarrow> bool
   \<Rightarrow> py_error + int" where
  "impact_score ios cfg cls meth mods entries wrap_coexist =
     ebind (base_score ios cfg cls meth mods entries) (\<lambda>score.
       if wrap_coexist
       then ebind (wrap_coexist_bonus ios cfg) (\<lambda>bonus. Inr (score + bonus))
       else Inr score)"

text \<open>
  Lines 152 to 158: the tier of a score. A threshold is only read, and converted, when
  the comparisons before it have failed.
\<close>

definition severity_of_score ::
  "(string \<Rightarrow> int option) \<Rightarrow> pyval \<Rightarrow> int \<Rightarrow> py_error + string" where
  "severity_of_score ios thresholds score =
     ebind (py_get thresholds ''critical'' (PInt 80)) (\<lambda>c.
     ebind (py_int ios c) (\<lambda>critical.
     if score \<ge> critical then Inr ''Critical''
     else
       ebind (py_get thresholds ''high'' (PInt 60)) (\<lambda>h.
       ebind (py_int ios h) (\<lambda>high.
       if score \<ge> high then Inr ''High''
       else
         ebind (py_get thresholds ''medium'' (PInt 40)) (\<lambda>m.
         ebind (py_int ios m) (\<lambda>medium.
         if score \<ge> medium then Inr ''Medium'' else Inr ''Low''))))))"

definition impact_message :: "string \<Rightarrow> string \<Rightarrow> bool \<Rightarrow> string" where
  "impact_message cls meth wrap_coexist =
     (''impact.symptom.'' @ classify_conflict_symptom cls meth)
       @ (if wrap_coexist then '' impact.extra.wrapCoexist'' else '''')"

text \<open>The body of the outer \<open>try\<close>, once the configuration in effect is known.\<close>

definition impact_body ::
  "(string \<Rightarrow> int option) \<Rightarrow> pydict \<Rightarrow> string \<Rightarrow> string \<Rightarrow> string list \<Rightarrow> entry_dict list \<Rightarrow> bool
   \<Rightarrow> py_error + impact" where
  "impact_body ios cfg cls meth mods entries wrap_coexist =
     (let thresholds = py_or (dict_get cfg ''thresholds'' PNone) (PDict [])
      in
      ebind (impact_score ios cfg cls meth mods entries wrap_coexist) (\<lambda>score.
      ebind (severity_of_score ios thresholds score) (\<lambda>sev.
      Inr \<lparr>severity = sev, message = impact_message cls meth wrap_coexist\<rparr>)))"

text \<open>\<open>config or get_default_impact_config()\<close>: the default is only looked up for a
  missing or empty \<open>config\<close>.\<close>

definition effective_config :: "impact_env \<Rightarrow> pydict option \<Rightarrow> pydict \<times> impact_env" where
  "effective_config env config =
     (case config of
        Some c \<Rightarrow> (if c \<noteq> [] then (c, env) else get_default_impact_config env)
      | None \<Rightarrow> get_default_impact_config env)"

definition compute_impact_unified ::
  "(string \<Rightarrow> int option) \<Rightarrow> impact_env \<Rightarrow> string \<Rightarrow> string \<Rightarrow> string list \<Rightarrow> entry_dict list
   \<Rightarrow> pydict option \<Rightarrow> bool \<Rightarrow> impact \<times> impact_env" where
  "compute_impact_unified ios env cls meth mods entries config wrap_coexist =
     (case effective_config env config of
        (cfg, env') \<Rightarrow>
          (case impact_body ios cfg cls meth mods entries wrap_coexist of
             Inr r \<Rightarrow> (r, env')
           | Inl e \<Rightarrow> (\<lparr>severity = '''', message = ''''\<rparr>, env')))"


subsection \<open>The scorer on arguments of any type\<close>

text \<open>
  The signature annotates \<open>cls\<close> and \<open>meth\<close> as \<open>str\<close>, \<open>mods\<close> and \<open>entries\<close> as
  \<open>list\<close>, \<open>config\<close> as a dict or \<open>None\<close> and \<open>wrap_coexist\<close> as \<open>bool\<close>, which Python
  does not enforce. Here every argument is an arbitrary value, and each operation that
  raises on a value of the wrong type is a branch, in the order of the source.
\<close>

text \<open>The elements of \<open>set(...)\<close> must be hashable; \<open>True\<close> and \<open>1\<close>, \<open>False\<close> and \<open>0\<close>
  are equal elements.\<close>

fun set_key :: "pyval \<Rightarrow> py_error + pyval" where
  "set_key (PList xs) = Inl TypeError"
| "set_key (PDict d) = Inl TypeError"
| "set_key (PBool b) = Inr (PInt (if b then 1 else 0))"
| "set_key v = Inr v"

fun set_keys :: "pyval list \<Rightarrow> py_error + pyval list" where
  "set_keys [] = Inr []"
| "set_keys (x # xs) = ebind (set_key x) (\<lambda>k. ebind (set_keys xs) (\<lambda>ks. Inr (k # ks)))"

text \<open>\<open>len(set(x))\<close>: a list gives its distinct elements, a \<open>str\<close> its distinct
  characters, a dict its keys; nothing else is iterable.\<close>

fun len_set :: "pyval \<Rightarrow> py_error + nat" where
  "len_set (PList xs) = ebind (set_keys xs) (\<lambda>ks. Inr (card (set ks)))"
| "len_set (PStr s) = Inr (card (set s))"
| "len_set (PDict d) = Inr (card (set (map fst d)))"
| "len_set _ = Inl TypeError"

text \<open>\<open>x.lower()\<close>: only a \<open>str\<close> has the method.\<close>

fun py_lower :: "pyval \<Rightarrow> py_error + string" where
  "py_lower (PStr s) = Inr (lower s)"
| "py_lower _ = Inl AttributeError"

text \<open>\<open>x[0]\<close>: the first element of a list, the first character of a \<open>str\<close>; a dict is
  looked up at the key \<open>0\<close>, which a dict with \<open>str\<close> keys does not have.\<close>

fun py_first :: "pyval \<Rightarrow> py_error + pyval" where
  "py_first (PList (x # xs)) = Inr x"
| "py_first (PList []) = Inl IndexError"
| "py_first (PStr (c # cs)) = Inr (PStr [c])"
| "py_first (PStr []) = Inl IndexError"
| "py_first (PDict d) = Inl KeyError"
| "py_first _ = Inl TypeError"

text \<open>Lines 130 to 132: the signature of the first entry.\<close>

definition first_func_sig_any :: "pyval \<Rightarrow> py_error + pyval" where
  "first_func_sig_any entries =
     (if truthy entries
      then ebind (py_first entries) (\<lambda>e0.
           ebind (py_get e0 ''func_sig'' PNone) (\<lambda>fs. Inr (py_or fs (PStr []))))
      else Inr (PStr []))"

text \<open>Lines 116 to 165, the body of the \<open>try\<close>, for the configuration in effect.\<close>

definition impact_body_any ::
  "(string \<Rightarrow> int option) \<Rightarrow> pyval \<Rightarrow> pyval \<Rightarrow> pyval \<Rightarrow> pyval \<Rightarrow> pyval \<Rightarrow> pyval
   \<Rightarrow> py_error + impact" where
  "impact_body_any ios cfg cls meth mods entries wrap_coexist =
     ebind (py_get cfg ''weights'' PNone) (\<lambda>wv.
     let weights = py_or wv (PDict []) in
     ebind (py_get cfg ''thresholds'' PNone) (\<lambda>tv.
     let thresholds = py_or tv (PDict []) in
     ebind (len_set (py_or mods (PList []))) (\<lambda>mod_count.
     ebind (py_get weights ''per_mod'' (PInt 0)) (\<lambda>pm.
     ebind (py_int ios pm) (\<lambda>per_mod.
     ebind (py_lower (py_or cls (PStr []))) (\<lambda>cls_l.
     ebind (py_lower (py_or meth (PStr []))) (\<lambda>meth_l.
     ebind (py_get weights ''class_keywords'' PNone) (\<lambda>ck.
     ebind (py_items (py_or ck (PDict []))) (\<lambda>ck_items.
     ebind (keyword_score ios ck_items cls_l (per_mod * int mod_count)) (\<lambda>score1.
     ebind (py_get weights ''method_keywords'' PNone) (\<lambda>mk.
     ebind (py_items (py_or mk (PDict []))) (\<lambda>mk_items.
     ebind (keyword_score ios mk_items meth_l score1) (\<lambda>score2.
     ebind (py_get weights ''signature'' PNone) (\<lambda>sg.
     let sig_w = py_or sg (PDict []) in
     ebind (py_get sig_w ''per_arg'' (PInt 0)) (\<lambda>pa.
     ebind (py_int ios pa) (\<lambda>per_arg.
     ebind (py_get sig_w ''has_return'' (PInt 0)) (\<lambda>hr.
     ebind (py_int ios hr) (\<lambda>has_ret_w.
     ebind (first_func_sig_any entries) (\<lambda>func_sig.
     let (args_count, has_return) = sig_features func_sig;
         score3 = score2 + per_arg * int args_count;
         score4 = (if has_return then score3 + has_ret_w else score3)
     in
     ebind (if truthy wrap_coexist
            then ebind (py_get weights ''wrap_coexist_bonus'' (PInt 0)) (\<lambda>wb.
                 ebind (py_int ios wb) (\<lambda>bonus. Inr (score4 + bonus)))
            else Inr score4) (\<lambda>score.
     ebind (severity_of_score ios thresholds score) (\<lambda>sev.
     ebind (py_lower (py_or cls (PStr []))) (\<lambda>s.
     Inr \<lparr>severity = sev,
          message = (''impact.symptom.'' @ first_symptom SYMPTOM_KEYWORDS s)
                      @ (if truthy wrap_coexist then '' impact.extra.wrapCoexist'' else [])\<rparr>
     ))))))))))))))))))))))"

definition effective_config_any :: "impact_env \<Rightarrow> pyval \<Rightarrow> pyval \<times> impact_env" where
  "effective_config_any env config =
     (if truthy config then (config, env)
      else (case get_default_impact_config env of (d, env') \<Rightarrow> (PDict d, env')))"

text \<open>\<open>except Exception\<close> catches an exception of every class that the body can raise.\<close>

fun is_Exception :: "py_error \<Rightarrow> bool" where
  "is_Exception AttributeError = True"
| "is_Exception TypeError = True"
| "is_Exception ValueError = True"
| "is_Exception KeyError = True"
| "is_Exception IndexError = True"

text \<open>The whole function: \<open>Inr\<close> is the value returned, \<open>Inl\<close> an exception that leaves
  the function.\<close>

definition compute_impact_unified_any ::
  "(string \<Rightarrow> int option) \<Rightarrow> impact_env \<Rightarrow> pyval \<Rightarrow> pyval \<Rightarrow> pyval \<Rightarrow> pyval \<Rightarrow> pyval \<Rightarrow> pyval
   \<Rightarrow> (py_error + impact) \<times> impact_env" where
  "compute_impact_unified_any ios env cls meth mods entries config wrap_coexist =
     (case effective_config_any env config of
        (cfg, env') \<Rightarrow>
          (case impact_body_any ios cfg cls meth mods entries wrap_coexist of
             Inr r \<Rightarrow> (Inr r, env')
           | Inl e \<Rightarrow>
               if is_Exception e then (Inr \<lparr>severity = [], message = []\<rparr>, env')
               else (Inl e, env')))"


subsection \<open>Order of the tiers\<close>

text \<open>The four tiers in ascending order; the empty severity of the error result is
  below all of them.\<close>

definition severity_rank :: "string \<Rightarrow> nat" where
  "severity_rank sev =
     (if sev = ''Low'' then 1 else if sev = ''Medium'' then 2
      else if sev = ''High'' then 3 else if sev = ''Critical'' then 4 else 0)"

text \<open>A conversion that rejects every text, for the evaluations in which no weight is a
  \<open>str\<close>.\<close>

definition int_of_str_none :: "string \<Rightarrow> int option" where
  "int_of_str_none s = None"


section \<open>Annotation scanner (redscript_conflicts_report.py, scan_file)\<close>

subsection \<open>The three regular expressions\<close>

fun strip_prefix :: "string \<Rightarrow> string \<Rightarrow> string option" where
  "strip_prefix [] s = Some s"
| "strip_prefix (p # ps) [] = None"
| "strip_prefix (p # ps) (c # cs) = (if p = c then strip_prefix ps cs else None)"

fun first_keyword :: "string list \<Rightarrow> string \<Rightarrow> (string \<times> string) option" where
  "first_keyword [] s = None"
| "first_keyword (k # ks) s =
     (case strip_prefix k s of Some rest \<Rightarrow> Some (k, rest) | None \<Rightarrow> first_keyword ks s)"

text \<open>
  \<open>ANNOTATION_RE.match(line)\<close>, giving groups 1 and 2. The pattern is
  \<^verbatim>\<open>^\s*@(replaceMethod|wrapMethod|replaceGlobal)\s*\(([^)]*)\)\s*$\<close>: no step of it can
  match in two ways, so it is read off from left to right.
\<close>

definition ANNOTATION_RE_match :: "string \<Rightarrow> (string \<times> string) option" where
  "ANNOTATION_RE_match line =
     (case dropWhile is_space line of
        [] \<Rightarrow> None
      | c # s2 \<Rightarrow>
          if c \<noteq> CHR ''@'' then None
          else
            (case first_keyword [''replaceMethod'', ''wrapMethod'', ''replaceGlobal''] s2 of
               None \<Rightarrow> None
             | Some (ann, s3) \<Rightarrow>
                 (case dropWhile is_space s3 of
                    [] \<Rightarrow> None
                  | c4 # s5 \<Rightarrow>
                      if c4 \<noteq> CHR ''('' then None
                      else
                        (case dropWhile (\<lambda>x. x \<noteq> CHR '')'') s5 of
                           [] \<Rightarrow> None
                         | c6 # s7 \<Rightarrow>
                             if list_all is_space s7
                             then Some (ann, takeWhile (\<lambda>x. x \<noteq> CHR '')'') s5)
                             else None))))"

text \<open>
  \<open>FUNC_RE.search(line)\<close>, giving group 1. The pattern is
  \<^verbatim>\<open>\bfunc\s+([A-Za-z0-9_]+)\s*\(\<close>; \<open>func_at\<close> matches it without the word boundary at
  the head of a text, \<open>func_search\<close> tries the positions from the left, where the boundary
  asks that the character before is not a word character.
\<close>

definition func_at :: "string \<Rightarrow> string option" where
  "func_at s =
     (case strip_prefix ''func'' s of
        None \<Rightarrow> None
      | Some r \<Rightarrow>
          (case r of
             [] \<Rightarrow> None
           | c # _ \<Rightarrow>
               if \<not> is_space c then None
               else
                 (let r1 = dropWhile is_space r;
                      name = takeWhile is_ident_char r1;
                      r2 = dropWhile is_ident_char r1
                  in if name = [] then None
                     else (case dropWhile is_space r2 of
                             [] \<Rightarrow> None
                           | c2 # _ \<Rightarrow> if c2 = CHR ''('' then Some name else None))))"

fun func_search :: "bool \<Rightarrow> string \<Rightarrow> string option" where
  "func_search prev_word [] = None"
| "func_search prev_word (c # cs) =
     (case (if prev_word then None else func_at (c # cs)) of
        Some name \<Rightarrow> Some name
      | None \<Rightarrow> func_search (is_word_char c) cs)"

definition FUNC_RE_search :: "string \<Rightarrow> string option" where
  "FUNC_RE_search line = func_search False line"

text \<open>
  \<open>COMMENT_RE.search(line)\<close> as a truth value. The pattern is
  \<^verbatim>\<open>^\s*//|^\s*/\*|\*/\s*$\<close>: the line starts, after blanks, with \<open>//\<close> or \<open>/*\<close>, or ends,
  before blanks, with \<open>*/\<close>.
\<close>

definition COMMENT_RE_search :: "string \<Rightarrow> bool" where
  "COMMENT_RE_search line =
     (prefix ''//'' (lstrip line) \<or> prefix ''/*'' (lstrip line)
      \<or> prefix ''/*'' (dropWhile is_space (rev line)))"

subsection \<open>Lines of a text\<close>

definition is_linebreak :: "char \<Rightarrow> bool" where
  "is_linebreak c = (c \<in> set [CHR 0x0A, CHR 0x0B, CHR 0x0C, CHR 0x0D,
                               CHR 0x1C, CHR 0x1D, CHR 0x1E, CHR 0x85])"

text \<open>\<open>str.splitlines()\<close>: a carriage return followed by a line feed is one break, and a
  break at the very end opens no further line.\<close>

fun splitlines :: "string \<Rightarrow> string list" where
  "splitlines [] = []"
| "splitlines [c] = (if is_linebreak c then [[]] else [[c]])"
| "splitlines (c # c2 # cs) =
     (if c = CHR 0x0D \<and> c2 = CHR 0x0A then [] # splitlines cs
      else if is_linebreak c then [] # splitlines (c2 # cs)
      else (case splitlines (c2 # cs) of [] \<Rightarrow> [[c]] | l # ls \<Rightarrow> (c # l) # ls))"

subsection \<open>scan_file\<close>

type_synonym path = "string list"

text \<open>
  A path is the list of its parts; \<open>str(path)\<close>, which the code stores and compares, is
  one-to-one on paths, so the path stands for it. What \<open>scan_file\<close> emits has no
  \<open>relpath\<close> and no \<open>mod\<close> yet.
\<close>

record entry =
  e_annotation :: string
  e_class :: string
  e_method :: string
  e_func_sig :: string
  e_file :: path
  e_line :: nat

type_synonym pending = "(string \<times> string list \<times> nat) list"

definition annotation_classes :: "string \<Rightarrow> string \<Rightarrow> string list" where
  "annotation_classes ann group2 =
     (let classes = (if group2 \<noteq> [] then map strip (split_on CHR '','' group2) else []);
          classes = (if ann = ''replaceGlobal'' then [''<global>''] else classes)
      in if classes = [] then [''<unknown>''] else classes)"

text \<open>The two nested loops of the flush: the pending annotations in order, and for each
  its classes in order.\<close>

definition flush :: "path \<Rightarrow> string \<Rightarrow> string \<Rightarrow> pending \<Rightarrow> entry list" where
  "flush p method_name func_sig pend =
     concat (map (\<lambda>(ann, classes, ann_line).
                    map (\<lambda>cls. \<lparr>e_annotation = ann, e_class = cls, e_method = method_name,
                                 e_func_sig = func_sig, e_file = p, e_line = ann_line\<rparr>) classes)
                 pend)"

text \<open>One turn of the loop over the numbered lines; the state is \<open>(entries, pending)\<close>.\<close>

definition scan_step :: "path \<Rightarrow> entry list \<times> pending \<Rightarrow> nat \<times> string \<Rightarrow> entry list \<times> pending" where
  "scan_step p st il =
     (case st of (entries, pend) \<Rightarrow>
      case il of (idx, line) \<Rightarrow>
        (case ANNOTATION_RE_match line of
           Some (ann, group2) \<Rightarrow> (entries, pend @ [(ann, annotation_classes ann group2, idx)])
         | None \<Rightarrow>
             if strip line = [] \<or> COMMENT_RE_search line then (entries, pend)
             else if is_substr '' func '' (CHR '' '' # line) then
               (case FUNC_RE_search line of
                  Some method_name \<Rightarrow>
                    if pend \<noteq> [] then (entries @ flush p method_name (strip line) pend, [])
                    else (entries, [])
                | None \<Rightarrow> (entries, []))
             else if pend \<noteq> [] then
               (if \<not> prefix ''@'' (lstrip line) then (entries, []) else (entries, pend))
             else (entries, pend)))"

text \<open>The state after the loop over \<open>enumerate(lines, start=1)\<close>, and the entries
  returned.\<close>

definition scan_state :: "path \<Rightarrow> string list \<Rightarrow> entry list \<times> pending" where
  "scan_state p lines = foldl (scan_step p) ([], []) (zip [1 ..< Suc (length lines)] lines)"

definition scan_lines :: "path \<Rightarrow> string list \<Rightarrow> entry list" where
  "scan_lines p lines = fst (scan_state p lines)"

text \<open>\<open>read\<close> is the outcome of \<open>path.read_text(...)\<close>: the text, or \<open>None\<close> when it
  raises.\<close>

definition scan_file :: "(path \<Rightarrow> string option) \<Rightarrow> path \<Rightarrow> entry list" where
  "scan_file read_text p =
     (case read_text p of
        None \<Rightarrow> []
      | Some text \<Rightarrow> scan_lines p (splitlines text))"


section \<open>Report builder (redscript_conflicts_report.py, build_report)\<close>

text \<open>The file system as \<open>build_report\<close> sees it.\<close>

record filesystem =
  rglob_reds :: "path \<Rightarrow> path list"
  read_text :: "path \<Rightarrow> string option"
  resolve :: "path \<Rightarrow> path"

record occurrence = entry +
  e_relpath :: string
  e_mod :: string

subsection \<open>Enrichment\<close>

fun index_of :: "'a list \<Rightarrow> 'a \<Rightarrow> nat" where
  "index_of [] x = 0"
| "index_of (y # ys) x = (if x = y then 0 else Suc (index_of ys x))"

text \<open>\<open>resolved.relative_to(root)\<close>: the parts after those of the root, or \<open>None\<close> when
  it raises.\<close>

definition relative_to :: "path \<Rightarrow> path \<Rightarrow> path option" where
  "relative_to p root = (if prefix root p then Some (drop (length root) p) else None)"

definition path_name :: "path \<Rightarrow> string" where
  "path_name p = (if p = [] then [] else last p)"

fun join_parts :: "path \<Rightarrow> string" where
  "join_parts [] = ''.''"
| "join_parts [x] = x"
| "join_parts (x # y # ys) = x @ ''/'' @ join_parts (y # ys)"

definition mod_of_parts :: "string list \<Rightarrow> string" where
  "mod_of_parts parts =
     (let parts_lower = map lower parts
      in if ''r6'' \<in> set parts_lower then
           (let i = index_of parts_lower ''r6''
            in if i + 1 < length parts_lower \<and> parts_lower ! (i + 1) = ''scripts''
                  \<and> i + 2 < length parts
               then parts ! (i + 2)
               else if i + 1 < length parts then parts ! (i + 1)
               else ''<root>'')
         else if ''scripts'' \<in> set parts_lower then
           (let j = index_of parts_lower ''scripts''
            in if j + 1 < length parts then parts ! (j + 1)
               else (if parts \<noteq> [] then parts ! 0 else ''<root>''))
         else (if parts \<noteq> [] then parts ! 0 else ''<root>''))"

definition enrich :: "filesystem \<Rightarrow> path \<Rightarrow> entry \<Rightarrow> occurrence" where
  "enrich fs root e =
     (let p = e_file e;
          rel_parts = (case relative_to (resolve fs p) root of
                         Some rel \<Rightarrow> rel
                       | None \<Rightarrow> [path_name p])
      in entry.extend e (occurrence.fields (join_parts rel_parts) (mod_of_parts rel_parts)))"

subsection \<open>Grouping\<close>

text \<open>The two \<open>defaultdict\<close>s are association lists in insertion order, which is the
  order a Python dict is iterated in.\<close>

fun dd_append :: "('k \<times> 'v list) list \<Rightarrow> 'k \<Rightarrow> 'v \<Rightarrow> ('k \<times> 'v list) list" where
  "dd_append [] k v = [(k, [v])]"
| "dd_append ((k', vs) # rest) k v =
     (if k' = k then (k', vs @ [v]) # rest else (k', vs) # dd_append rest k v)"

definition by_key_of :: "occurrence list \<Rightarrow> ((string \<times> string \<times> string) \<times> occurrence list) list" where
  "by_key_of entries =
     foldl (\<lambda>by_key e. dd_append by_key (e_annotation e, e_class e, e_method e) e) [] entries"

record kinds =
  replace :: "occurrence list"
  wrap :: "occurrence list"
  other :: "occurrence list"

fun dd_update :: "('k \<times> kinds) list \<Rightarrow> 'k \<Rightarrow> (kinds \<Rightarrow> kinds) \<Rightarrow> ('k \<times> kinds) list" where
  "dd_update [] k f = [(k, f \<lparr>replace = [], wrap = [], other = []\<rparr>)]"
| "dd_update ((k', b) # rest) k f =
     (if k' = k then (k', f b) # rest else (k', b) # dd_update rest k f)"

definition by_cm_step ::
  "((string \<times> string) \<times> kinds) list \<Rightarrow> (string \<times> string \<times> string) \<times> occurrence list
   \<Rightarrow> ((string \<times> string) \<times> kinds) list" where
  "by_cm_step by_cm item =
     (case item of ((ann, cls, meth), lst) \<Rightarrow>
        if ann = ''replaceMethod'' then dd_update by_cm (cls, meth) (\<lambda>b. b\<lparr>replace := replace b @ lst\<rparr>)
        else if ann = ''wrapMethod'' then dd_update by_cm (cls, meth) (\<lambda>b. b\<lparr>wrap := wrap b @ lst\<rparr>)
        else dd_update by_cm (cls, meth) (\<lambda>b. b\<lparr>other := other b @ lst\<rparr>))"

definition by_cm_of ::
  "((string \<times> string \<times> string) \<times> occurrence list) list \<Rightarrow> ((string \<times> string) \<times> kinds) list" where
  "by_cm_of by_key = foldl by_cm_step [] by_key"

subsection \<open>Detection\<close>

record conflict_group =
  cg_class :: string
  cg_method :: string
  cg_count :: nat
  cg_mods :: "string list"
  cg_occurrences :: "occurrence list"

record wrap_group =
  wg_class :: string
  wg_method :: string
  wg_wrap_count :: nat
  wg_mods :: "string list"
  wg_occurrences :: "occurrence list"

record replace_wrap_group =
  rw_class :: string
  rw_method :: string
  rw_replace_count :: nat
  rw_wrap_count :: nat
  rw_mods_replace :: "string list"
  rw_mods_wrap :: "string list"
  rw_occurrences_replace :: "occurrence list"
  rw_occurrences_wrap :: "occurrence list"

text \<open>\<open>sorted({...})\<close> of strings: the distinct elements in ascending order, strings
  compared lexicographically by code point.\<close>

definition sorted_set :: "string list \<Rightarrow> string list" where
  "sorted_set xs = sort (remdups xs)"

text \<open>What one turn of the loop over \<open>by_cm.items()\<close> appends to each of the three
  lists: nothing or one group.\<close>

definition conflict_of :: "(string \<times> string) \<times> kinds \<Rightarrow> conflict_group list" where
  "conflict_of item =
     (case item of ((cls, meth), b) \<Rightarrow>
        (let repl = replace b
         in if repl \<noteq> [] \<and> card (set (map e_file repl)) > 1
            then [\<lparr>cg_class = cls, cg_method = meth, cg_count = length repl,
                   cg_mods = sorted_set (map e_mod repl), cg_occurrences = repl\<rparr>]
            else []))"

definition wrap_coexistence_of :: "(string \<times> string) \<times> kinds \<Rightarrow> wrap_group list" where
  "wrap_coexistence_of item =
     (case item of ((cls, meth), b) \<Rightarrow>
        (let wr = wrap b
         in if wr \<noteq> [] \<and> card (set (map e_file wr)) > 1
            then [\<lparr>wg_class = cls, wg_method = meth, wg_wrap_count = length wr,
                   wg_mods = sorted_set (map e_mod wr), wg_occurrences = wr\<rparr>]
            else []))"

definition replace_wrap_coexistence_of :: "(string \<times> string) \<times> kinds \<Rightarrow> replace_wrap_group list" where
  "replace_wrap_coexistence_of item =
     (case item of ((cls, meth), b) \<Rightarrow>
        (let repl = replace b; wr = wrap b
         in if repl \<noteq> [] \<and> wr \<noteq> []
            then [\<lparr>rw_class = cls, rw_method = meth,
                   rw_replace_count = length repl, rw_wrap_count = length wr,
                   rw_mods_replace = sorted_set (map e_mod repl),
                   rw_mods_wrap = sorted_set (map e_mod wr),
                   rw_occurrences_replace = repl, rw_occurrences_wrap = wr\<rparr>]
            else []))"

subsection \<open>build_report\<close>

record report =
  scanned_root :: path
  files_scanned :: nat
  entries :: "occurrence list"
  annotation_counts :: "(string \<times> nat) list"
  conflicts :: "conflict_group list"
  wrap_coexistence :: "wrap_group list"
  replace_wrap_coexistence :: "replace_wrap_group list"

text \<open>\<open>Counter(...)\<close>: each annotation kind, in order of first appearance, with the
  number of entries that have it.\<close>

definition counter :: "string list \<Rightarrow> (string \<times> nat) list" where
  "counter xs = map (\<lambda>a. (a, count_list xs a)) (rev (remdups (rev xs)))"

definition build_report :: "filesystem \<Rightarrow> path \<Rightarrow> report" where
  "build_report fs root0 =
     (let reds_files = rglob_reds fs root0;
          scanned = concat (map (scan_file (read_text fs)) reds_files);
          root = resolve fs root0;
          ents = map (enrich fs root) scanned;
          by_cm = by_cm_of (by_key_of ents)
      in \<lparr>scanned_root = resolve fs root,
          files_scanned = length reds_files,
          entries = ents,
          annotation_counts = counter (map e_annotation ents),
          conflicts = concat (map conflict_of by_cm),
          wrap_coexistence = concat (map wrap_coexistence_of by_cm),
          replace_wrap_coexistence = concat (map replace_wrap_coexistence_of by_cm)\<rparr>)"


section \<open>Example inputs\<close>

definition three_args :: "entry_dict list" where
  "three_args = [[(''func_sig'', PStr ''func F(a: Int32, b: Int32, c: Int32)'')]]"

definition seven_mods :: "string list" where
  "seven_mods = [''m0'', ''m1'', ''m2'', ''m3'', ''m4'', ''m5'', ''m6'']"




definition stacked_lines :: "string list" where
  "stacked_lines = [''@replaceMethod(Foo)'', ''@wrapMethod(Foo)'', ''func Bar(a: Int32) -> Int32 {'']"

definition multi_class_lines :: "string list" where
  "multi_class_lines = [''@replaceMethod(Foo, Bar)'', ''func Baz()'']"

definition sample_text :: string where
  "sample_text = ''@replaceMethod(Foo)'' @ [CHR 0x0A] @ ''func Bar()''"

definition half_readable :: "path \<Rightarrow> string option" where
  "half_readable p = (if p = [''bad.reds''] then None else Some sample_text)"

definition proj_fs :: filesystem where
  "proj_fs = \<lparr>rglob_reds = (\<lambda>r. [r @ [''SomeMod'', ''r6'', ''scripts'', ''sub'', ''File.reds'']]),
              read_text = (\<lambda>p. Some sample_text),
              resolve = (\<lambda>p. p)\<rparr>"


text \<open>Notions used to state the properties of the grouping: the key of an occurrence in
  \<open>by_key\<close>, and what the items of \<open>by_key\<close> with one key hold.\<close>

definition bucket_of ::
  "string \<Rightarrow> string \<Rightarrow> string \<Rightarrow> ((string \<times> string \<times> string) \<times> occurrence list) list
   \<Rightarrow> occurrence list" where
  "bucket_of ann c m bk = concat (map snd (filter (\<lambda>it. fst it = (ann, c, m)) bk))"

definition entry_key :: "occurrence \<Rightarrow> string \<times> string \<times> string" where
  "entry_key e = (e_annotation e, e_class e, e_method e)"


text \<open>The occurrences of one kind that a report holds for a class and method, and the
  groups it holds for them.\<close>

definition replace_occurrences :: "report \<Rightarrow> string \<Rightarrow> string \<Rightarrow> occurrence list" where
  "replace_occurrences r c m =
     filter (\<lambda>e. e_annotation e = ''replaceMethod'' \<and> e_class e = c \<and> e_method e = m) (entries r)"

definition wrap_occurrences :: "report \<Rightarrow> string \<Rightarrow> string \<Rightarrow> occurrence list" where
  "wrap_occurrences r c m =
     filter (\<lambda>e. e_annotation e = ''wrapMethod'' \<and> e_class e = c \<and> e_method e = m) (entries r)"

definition conflicts_for :: "report \<Rightarrow> string \<Rightarrow> string \<Rightarrow> conflict_group list" where
  "conflicts_for r c m = filter (\<lambda>g. cg_class g = c \<and> cg_method g = m) (conflicts r)"

definition wrap_coexistence_for :: "report \<Rightarrow> string \<Rightarrow> string \<Rightarrow> wrap_group list" where
  "wrap_coexistence_for r c m = filter (\<lambda>g. wg_class g = c \<and> wg_method g = m) (wrap_coexistence r)"

definition replace_wrap_coexistence_for ::
  "report \<Rightarrow> string \<Rightarrow> string \<Rightarrow> replace_wrap_group list" where
  "replace_wrap_coexistence_for r c m =
     filter (\<lambda>g. rw_class g = c \<and> rw_method g = m) (replace_wrap_coexistence r)"


text \<open>Two trees: two mods that each replace and wrap \<open>Foo.Bar\<close>, one of them also
  replacing \<open>Baz.Qux\<close> twice in one file; and a single file that replaces and wraps
  \<open>Foo.Bar\<close>.\<close>

definition both_text :: string where
  "both_text = ''@replaceMethod(Foo)'' @ [CHR 0x0A] @ ''func Bar(a: Int32) -> Int32 {'' @ [CHR 0x0A]
     @ ''}'' @ [CHR 0x0A] @ ''@wrapMethod(Foo)'' @ [CHR 0x0A]
     @ ''func Bar(a: Int32) -> Int32 {'' @ [CHR 0x0A] @ ''}''"

definition dup_text :: string where
  "dup_text = ''@replaceMethod(Baz)'' @ [CHR 0x0A] @ ''func Qux()'' @ [CHR 0x0A]
     @ ''@replaceMethod(Baz)'' @ [CHR 0x0A] @ ''func Qux()''"

definition scenario_fs :: filesystem where
  "scenario_fs =
     \<lparr>rglob_reds = (\<lambda>r. [r @ [''ZMod'', ''bar1.reds''], r @ [''AMod'', ''bar2.reds''],
                          r @ [''AMod'', ''dup.reds'']]),
      read_text = (\<lambda>p. if path_name p = ''dup.reds'' then Some dup_text else Some both_text),
      resolve = (\<lambda>p. p)\<rparr>"

definition single_fs :: filesystem where
  "single_fs =
     \<lparr>rglob_reds = (\<lambda>r. [r @ [''AMod'', ''bar2.reds'']]),
      read_text = (\<lambda>p. Some both_text),
      resolve = (\<lambda>p. p)\<rparr>"

definition scenario_report :: report where
  "scenario_report = build_report scenario_fs [''/'', ''mods'']"

definition single_report :: report where
  "single_report = build_report single_fs [''/'', ''mods'']"


text \<open>Two malformed configurations, and two states of the cache and the external files.\<close>

definition weights_as_list :: pyval where
  "weights_as_list = PDict [(''weights'', PList [PInt 1]), (''thresholds'', PStr ''high'')]"

definition per_mod_none :: pyval where
  "per_mod_none = PDict [(''weights'', PDict [(''per_mod'', PNone)])]"

definition no_external :: impact_env where
  "no_external = \<lparr>IMPACT_EXTERNAL_CACHE = None, candidates = []\<rparr>"



text \<open>A line that \<open>scan_file\<close> takes as the declaration of the function \<open>m\<close>: it is no
  annotation, not blank, no comment, holds the word \<open>func\<close> after a blank or at its start,
  and \<open>FUNC_RE\<close> finds \<open>m\<close> in it.\<close>

definition is_func_line :: "string \<Rightarrow> string \<Rightarrow> bool" where
  "is_func_line line m =
     (ANNOTATION_RE_match line = None \<and> strip line \<noteq> [] \<and> \<not> COMMENT_RE_search line
      \<and> is_substr '' func '' (CHR '' '' # line) \<and> FUNC_RE_search line = Some m)"

text \<open>Three files: two stacked annotations, one annotation with two classes, a declaration
  alone.\<close>

definition stacked_text :: string where
  "stacked_text = ''@replaceMethod(Foo)'' @ [CHR 0x0A] @ ''@wrapMethod(Foo)'' @ [CHR 0x0A]
     @ ''func Bar(a: Int32) -> Int32 {''"

definition multi_class_text :: string where
  "multi_class_text = ''@replaceMethod(Foo, Bar)'' @ [CHR 0x0A] @ ''func Baz()''"

definition bare_text :: string where
  "bare_text = ''func Baz()''"

definition scan_examples :: "path \<Rightarrow> string option" where
  "scan_examples p =
     (if p = [''stacked.reds''] then Some stacked_text
      else if p = [''multi.reds''] then Some multi_class_text
      else if p = [''bare.reds''] then Some bare_text
      else None)"


section \<open>Properties of the impact scorer\<close>

lemma ebind_Inr [simp]: "ebind (Inr x) f = f x" by (simp add: ebind_def)
lemma ebind_Inl [simp]: "ebind (Inl e) f = Inl e" by (simp add: ebind_def)

lemmas text_defs = lower_def lower_char_def strip_def lstrip_def rstrip_def is_space_def
lemmas score_defs = impact_score_def base_score_def weights_of_def wrap_coexist_bonus_def
  IMPACT_DEFAULT_CONFIG_def dict_get_def py_or_def first_func_sig_def sig_args_count_def
  sig_has_return_def
lemmas impact_defs = compute_impact_unified_def effective_config_def impact_body_def
  impact_message_def classify_conflict_symptom_def SYMPTOM_KEYWORDS_def severity_of_score_def

lemma severity_of_score_default:
  "severity_of_score ios (py_or (dict_get IMPACT_DEFAULT_CONFIG ''thresholds'' PNone) (PDict [])) score =
   Inr (if 95 \<le> score then ''Critical'' else if 70 \<le> score then ''High''
        else if 45 \<le> score then ''Medium'' else ''Low'')"
  by (simp add: severity_of_score_def dict_get_def py_or_def IMPACT_DEFAULT_CONFIG_def)

lemma score_44: "impact_score ios IMPACT_DEFAULT_CONFIG ''Vehicle'' '''' [''m0'', ''m1''] three_args False = Inr 44"
  by (simp add: score_defs text_defs three_args_def)
lemma score_45: "impact_score ios IMPACT_DEFAULT_CONFIG ''VehicleInventory'' '''' [''m0'', ''m1''] [] False = Inr 45"
  by (simp add: score_defs text_defs)
lemma score_69: "impact_score ios IMPACT_DEFAULT_CONFIG ''VehicleInventory'' ''UpdateTick'' [''m0'', ''m1''] [] False = Inr 69"
  by (simp add: score_defs text_defs)
lemma score_70: "impact_score ios IMPACT_DEFAULT_CONFIG '''' '''' seven_mods [] False = Inr 70"
  by (simp add: score_defs text_defs seven_mods_def)
lemma score_94: "impact_score ios IMPACT_DEFAULT_CONFIG '''' ''UpdateTick'' seven_mods [] False = Inr 94"
  by (simp add: score_defs text_defs seven_mods_def)
lemma score_95: "impact_score ios IMPACT_DEFAULT_CONFIG ''VehicleInventory'' '''' seven_mods [] False = Inr 95"
  by (simp add: score_defs text_defs seven_mods_def)

lemma severity_from_score:
  "impact_score ios cfg cls meth mods ents w = Inr score \<Longrightarrow> cfg \<noteq> [] \<Longrightarrow>
   severity (fst (compute_impact_unified ios env cls meth mods ents (Some cfg) w)) =
     (case severity_of_score ios (py_or (dict_get cfg ''thresholds'' PNone) (PDict [])) score of
        Inr sev \<Rightarrow> sev | Inl e \<Rightarrow> '''')"
  by (simp add: compute_impact_unified_def effective_config_def impact_body_def split: sum.splits)

lemma default_nonempty: "IMPACT_DEFAULT_CONFIG \<noteq> []" by (simp add: IMPACT_DEFAULT_CONFIG_def)

text \<open>
  Claim C3. Under the default profile the tier is read off the score with the thresholds
  95, 70 and 45 as inclusive lower bounds, tried from the highest: for every score the first
  equation, and for six calls of \<open>compute_impact_unified\<close> whose scores are 44, 45, 69, 70,
  94 and 95 the tiers Low, Medium, Medium, High, High and Critical.
\<close>

theorem severity_boundaries:
  "severity_of_score ios (py_or (dict_get IMPACT_DEFAULT_CONFIG ''thresholds'' PNone) (PDict [])) score =
     Inr (if 95 \<le> score then ''Critical'' else if 70 \<le> score then ''High''
          else if 45 \<le> score then ''Medium'' else ''Low'')
   \<and> impact_score ios IMPACT_DEFAULT_CONFIG ''Vehicle'' '''' [''m0'', ''m1''] three_args False = Inr 44
   \<and> severity (fst (compute_impact_unified ios env ''Vehicle'' '''' [''m0'', ''m1''] three_args (Some IMPACT_DEFAULT_CONFIG) False)) = ''Low''
   \<and> impact_score ios IMPACT_DEFAULT_CONFIG ''VehicleInventory'' '''' [''m0'', ''m1''] [] False = Inr 45
   \<and> severity (fst (compute_impact_unified ios env ''VehicleInventory'' '''' [''m0'', ''m1''] [] (Some IMPACT_DEFAULT_CONFIG) False)) = ''Medium''
   \<and> impact_score ios IMPACT_DEFAULT_CONFIG ''VehicleInventory'' ''UpdateTick'' [''m0'', ''m1''] [] False = Inr 69
   \<and> severity (fst (compute_impact_unified ios env ''VehicleInventory'' ''UpdateTick'' [''m0'', ''m1''] [] (Some IMPACT_DEFAULT_CONFIG) False)) = ''Medium''
   \<and> impact_score ios IMPACT_DEFAULT_CONFIG '''' '''' seven_mods [] False = Inr 70
   \<and> severity (fst (compute_impact_unified ios env '''' '''' seven_mods [] (Some IMPACT_DEFAULT_CONFIG) False)) = ''High''
   \<and> impact_score ios IMPACT_DEFAULT_CONFIG '''' ''UpdateTick'' seven_mods [] False = Inr 94
   \<and> severity (fst (compute_impact_unified ios env '''' ''UpdateTick'' seven_mods [] (Some IMPACT_DEFAULT_CONFIG) False)) = ''High''
   \<and> impact_score ios IMPACT_DEFAULT_CONFIG ''VehicleInventory'' '''' seven_mods [] False = Inr 95
   \<and> severity (fst (compute_impact_unified ios env ''VehicleInventory'' '''' seven_mods [] (Some IMPACT_DEFAULT_CONFIG) False)) = ''Critical''"
  by (simp add: severity_from_score [OF _ default_nonempty] severity_of_score_default
        score_44 score_45 score_69 score_70 score_94 score_95)

lemma compute_impact_unified_alt:
  "compute_impact_unified ios env cls meth mods ents config w =
     (case impact_body ios (fst (effective_config env config)) cls meth mods ents w of
        Inr r \<Rightarrow> (r, snd (effective_config env config))
      | Inl e \<Rightarrow> (\<lparr>severity = '''', message = ''''\<rparr>, snd (effective_config env config)))"
  by (simp add: compute_impact_unified_def split: prod.splits sum.splits)

lemma severity_of_score_tier:
  "severity_of_score ios th s = Inr a \<Longrightarrow> a \<in> {''Low'', ''Medium'', ''High'', ''Critical''}"
  unfolding severity_of_score_def
  by (auto simp: ebind_def split: sum.splits if_splits)

lemma severity_rank_simps [simp]:
  "severity_rank '''' = 0" "severity_rank ''Low'' = 1" "severity_rank ''Medium'' = 2"
  "severity_rank ''High'' = 3" "severity_rank ''Critical'' = 4"
  by (simp_all add: severity_rank_def)

lemma severity_of_score_mono:
  assumes "severity_of_score ios th s = Inr a" "s \<le> s'"
  shows "\<exists>b. severity_of_score ios th s' = Inr b \<and> severity_rank a \<le> severity_rank b"
  using assms unfolding severity_of_score_def
  by (auto simp: ebind_def split: sum.splits if_splits)

lemma impact_body_baseline_le:
  assumes b: "wrap_coexist_bonus ios cfg = Inr bonus" and nn: "0 \<le> bonus"
    and base: "impact_body ios cfg cls meth mods ents False = Inr r"
  shows "\<exists>r'. impact_body ios cfg cls meth mods ents True = Inr r'
              \<and> severity_rank (severity r) \<le> severity_rank (severity r')"
proof -
  let ?th = "py_or (dict_get cfg ''thresholds'' PNone) (PDict [])"
  obtain s where s: "base_score ios cfg cls meth mods ents = Inr s"
  proof (cases "base_score ios cfg cls meth mods ents")
    case (Inl e)
    with base show ?thesis by (simp add: impact_body_def impact_score_def)
  next
    case (Inr s)
    then show ?thesis using that by blast
  qed
  obtain a where a: "severity_of_score ios ?th s = Inr a" and r: "severity r = a"
  proof (cases "severity_of_score ios ?th s")
    case (Inl e)
    with base s show ?thesis by (simp add: impact_body_def impact_score_def)
  next
    case (Inr a)
    with base s have "severity r = a" by (auto simp: impact_body_def impact_score_def)
    with Inr show ?thesis using that by blast
  qed
  from nn have "s \<le> s + bonus" by simp
  from severity_of_score_mono [OF a this] obtain a' where
    a': "severity_of_score ios ?th (s + bonus) = Inr a'" and le: "severity_rank a \<le> severity_rank a'"
    by blast
  have "impact_body ios cfg cls meth mods ents True
          = Inr \<lparr>severity = a', message = impact_message cls meth True\<rparr>"
    by (simp add: impact_body_def impact_score_def s b a')
  with le r show ?thesis by simp
qed

text \<open>
  Claim C2. When the configuration in effect has a wrap bonus that converts to a
  non-negative integer, the severity without the bonus is never ranked above the severity
  with it, for the same class, method, mods, entries, configuration and environment. The
  empty severity of the error result ranks below Low, so the statement also says that the
  call with the bonus yields a tier whenever the call without it does.
\<close>

theorem baseline_le_overall:
  assumes "wrap_coexist_bonus ios (fst (effective_config env config)) = Inr bonus" and "0 \<le> bonus"
  shows "severity_rank (severity (fst (compute_impact_unified ios env cls meth mods ents config False)))
       \<le> severity_rank (severity (fst (compute_impact_unified ios env cls meth mods ents config True)))"
proof (cases "impact_body ios (fst (effective_config env config)) cls meth mods ents False")
  case (Inl e)
  have "fst (compute_impact_unified ios env cls meth mods ents config False)
          = \<lparr>severity = '''', message = ''''\<rparr>"
    by (simp add: compute_impact_unified_alt Inl)
  then show ?thesis by simp
next
  case (Inr r)
  from impact_body_baseline_le [OF assms Inr] obtain r' where
    r': "impact_body ios (fst (effective_config env config)) cls meth mods ents True = Inr r'"
    and le: "severity_rank (severity r) \<le> severity_rank (severity r')" by blast
  have 1: "fst (compute_impact_unified ios env cls meth mods ents config False) = r"
    by (simp add: compute_impact_unified_alt Inr)
  have 2: "fst (compute_impact_unified ios env cls meth mods ents config True) = r'"
    by (simp add: compute_impact_unified_alt r')
  from le show ?thesis by (simp only: 1 2)
qed

lemma bonus_default: "wrap_coexist_bonus ios IMPACT_DEFAULT_CONFIG = Inr 12"
  by (simp add: wrap_coexist_bonus_def weights_of_def IMPACT_DEFAULT_CONFIG_def dict_get_def py_or_def)

lemma score_81: "impact_score ios IMPACT_DEFAULT_CONFIG ''VehicleInventory'' ''UpdateTick'' [''m0'', ''m1''] [] True = Inr 81"
  by (simp add: score_defs text_defs)

lemma effective_config_given: "c \<noteq> [] \<Longrightarrow> effective_config env (Some c) = (c, env)"
  by (simp add: effective_config_def)

text \<open>Under the default profile (bonus 12) a score of 69 is Medium and becomes High at
  81.\<close>

theorem baseline_le_overall_witness:
  "wrap_coexist_bonus int_of_str_none (fst (effective_config \<lparr>IMPACT_EXTERNAL_CACHE = None, candidates = []\<rparr> (Some IMPACT_DEFAULT_CONFIG))) = Inr 12
   \<and> severity (fst (compute_impact_unified int_of_str_none \<lparr>IMPACT_EXTERNAL_CACHE = None, candidates = []\<rparr>
        ''VehicleInventory'' ''UpdateTick'' [''m0'', ''m1''] [] (Some IMPACT_DEFAULT_CONFIG) False)) = ''Medium''
   \<and> severity (fst (compute_impact_unified int_of_str_none \<lparr>IMPACT_EXTERNAL_CACHE = None, candidates = []\<rparr>
        ''VehicleInventory'' ''UpdateTick'' [''m0'', ''m1''] [] (Some IMPACT_DEFAULT_CONFIG) True)) = ''High''
   \<and> severity_rank ''Medium'' \<le> severity_rank ''High''"
proof -
  let ?env = "\<lparr>IMPACT_EXTERNAL_CACHE = None, candidates = []\<rparr>"
  have h: "wrap_coexist_bonus int_of_str_none (fst (effective_config ?env (Some IMPACT_DEFAULT_CONFIG))) = Inr 12"
    by (simp only: effective_config_given [OF default_nonempty] fst_conv bonus_default)
  have lo: "severity (fst (compute_impact_unified int_of_str_none ?env
        ''VehicleInventory'' ''UpdateTick'' [''m0'', ''m1''] [] (Some IMPACT_DEFAULT_CONFIG) False)) = ''Medium''"
    by (simp add: severity_from_score [OF score_69 default_nonempty] severity_of_score_default)
  have hi: "severity (fst (compute_impact_unified int_of_str_none ?env
        ''VehicleInventory'' ''UpdateTick'' [''m0'', ''m1''] [] (Some IMPACT_DEFAULT_CONFIG) True)) = ''High''"
    by (simp add: severity_from_score [OF score_81 default_nonempty] severity_of_score_default)
  have "(0::int) \<le> 12" by simp
  from baseline_le_overall [OF h this, of "''VehicleInventory''" "''UpdateTick''" "[''m0'', ''m1'']" "[]"]
  have "severity_rank ''Medium'' \<le> severity_rank ''High''" by (simp only: lo hi)
  with h lo hi show ?thesis by blast
qed







section \<open>Properties of the scanner\<close>

lemma flush_length:
  "length (flush p m sg pend) = sum_list (map (\<lambda>(ann, classes, l). length classes) pend)"
  by (induction pend) (auto simp: flush_def)

lemma flush_pairs:
  "map (\<lambda>e. (e_annotation e, e_class e, e_method e, e_line e)) (flush p m sg pend)
     = concat (map (\<lambda>(ann, classes, l). map (\<lambda>c. (ann, c, m, l)) classes) pend)"
  by (induction pend) (auto simp: flush_def comp_def)

lemma scan_step_flush:
  assumes "ANNOTATION_RE_match line = None" "strip line \<noteq> []" "\<not> COMMENT_RE_search line"
    "is_substr '' func '' (CHR '' '' # line)" "FUNC_RE_search line = Some m" "pend \<noteq> []"
  shows "scan_step p (ents, pend) (idx, line) = (ents @ flush p m (strip line) pend, [])"
  using assms by (simp add: scan_step_def)

lemma scan_step_no_pending:
  assumes "ANNOTATION_RE_match line = None"
  shows "scan_step p (ents, []) (idx, line) = (ents, [])"
  using assms by (simp add: scan_step_def split: option.splits)

lemma scan_stacked:
  "scan_lines p stacked_lines =
     [\<lparr>e_annotation = ''replaceMethod'', e_class = ''Foo'', e_method = ''Bar'',
        e_func_sig = ''func Bar(a: Int32) -> Int32 {'', e_file = p, e_line = 1\<rparr>,
      \<lparr>e_annotation = ''wrapMethod'', e_class = ''Foo'', e_method = ''Bar'',
        e_func_sig = ''func Bar(a: Int32) -> Int32 {'', e_file = p, e_line = 2\<rparr>]"
  by code_simp

lemma scan_multi_class:
  "scan_lines p multi_class_lines =
     [\<lparr>e_annotation = ''replaceMethod'', e_class = ''Foo'', e_method = ''Baz'',
        e_func_sig = ''func Baz()'', e_file = p, e_line = 1\<rparr>,
      \<lparr>e_annotation = ''replaceMethod'', e_class = ''Bar'', e_method = ''Baz'',
        e_func_sig = ''func Baz()'', e_file = p, e_line = 1\<rparr>]"
  by code_simp

lemma scan_bare_func: "scan_lines p [''func Baz()''] = []"
  by code_simp

text \<open>
  Claim C9. When reading the file raises, \<open>scan_file\<close> returns the empty list, and the
  scan of a list of files is the scan of the others.
\<close>

theorem scan_file_unreadable:
  assumes "rd p = None"
  shows "scan_file rd p = []
       \<and> concat (map (scan_file rd) (ps @ p # qs)) = concat (map (scan_file rd) (ps @ qs))"
  using assms by (simp add: scan_file_def)

lemma scan_sample:
  "scan_lines p (splitlines sample_text) =
     [\<lparr>e_annotation = ''replaceMethod'', e_class = ''Foo'', e_method = ''Bar'',
        e_func_sig = ''func Bar()'', e_file = p, e_line = 1\<rparr>]"
  by code_simp

text \<open>
  One unreadable file between two readable ones.
\<close>

theorem scan_file_unreadable_witness:
  "half_readable [''bad.reds''] = None
   \<and> scan_file half_readable [''bad.reds''] = []
   \<and> concat (map (scan_file half_readable) ([[''good.reds'']] @ [''bad.reds''] # [[''fine.reds'']]))
       = [\<lparr>e_annotation = ''replaceMethod'', e_class = ''Foo'', e_method = ''Bar'',
            e_func_sig = ''func Bar()'', e_file = [''good.reds''], e_line = 1\<rparr>,
          \<lparr>e_annotation = ''replaceMethod'', e_class = ''Foo'', e_method = ''Bar'',
            e_func_sig = ''func Bar()'', e_file = [''fine.reds''], e_line = 1\<rparr>]"
proof -
  have h: "half_readable [''bad.reds''] = None" by (simp add: half_readable_def)
  have g: "scan_file half_readable [''good.reds''] = scan_lines [''good.reds''] (splitlines sample_text)"
    "scan_file half_readable [''fine.reds''] = scan_lines [''fine.reds''] (splitlines sample_text)"
    by (simp_all add: scan_file_def half_readable_def)
  from scan_file_unreadable [of half_readable "[''bad.reds'']" "[[''good.reds'']]" "[[''fine.reds'']]"] h
  show ?thesis by (simp add: g scan_sample)
qed


section \<open>Properties of the enrichment\<close>

lemma enrich_entry [simp]:
  "e_file (enrich fs root e) = e_file e" "e_annotation (enrich fs root e) = e_annotation e"
  "e_class (enrich fs root e) = e_class e" "e_method (enrich fs root e) = e_method e"
  by (simp_all add: enrich_def Let_def entry.extend_def occurrence.fields_def)

lemma enrich_mod:
  "e_mod (enrich fs root e) =
     mod_of_parts (case relative_to (resolve fs (e_file e)) root of
                     Some rel \<Rightarrow> rel | None \<Rightarrow> [path_name (e_file e)])"
  by (simp add: enrich_def Let_def entry.extend_def occurrence.fields_def)

lemma relative_to_append: "relative_to (root @ parts) root = Some parts"
  by (simp add: relative_to_def)

lemma entries_build_report:
  "entries (build_report fs root0) =
     map (enrich fs (resolve fs root0)) (concat (map (scan_file (read_text fs)) (rglob_reds fs root0)))"
  by (simp add: build_report_def Let_def)

lemma mod_of_example:
  "mod_of_parts [''SomeMod'', ''r6'', ''scripts'', ''sub'', ''File.reds''] = ''sub''"
  by code_simp

text \<open>
  Claim C4, amended. For every root, an occurrence whose resolved file is
  \<open>SomeMod/r6/scripts/sub/File.reds\<close> below the resolved root has the mod \<open>sub\<close>: the part
  that follows \<open>r6\<close> and \<open>scripts\<close>.
\<close>

theorem mod_attribution:
  "\<forall>oc \<in> set (entries (build_report fs root0)).
      resolve fs (e_file oc) = resolve fs root0 @ [''SomeMod'', ''r6'', ''scripts'', ''sub'', ''File.reds'']
      \<longrightarrow> e_mod oc = ''sub''"
  by (auto simp: entries_build_report enrich_mod relative_to_append mod_of_example)

lemma proj_entries_eq:
  "entries (build_report proj_fs [''/'', ''proj'']) =
     [enrich proj_fs [''/'', ''proj'']
        \<lparr>e_annotation = ''replaceMethod'', e_class = ''Foo'', e_method = ''Bar'',
          e_func_sig = ''func Bar()'',
          e_file = [''/'', ''proj'', ''SomeMod'', ''r6'', ''scripts'', ''sub'', ''File.reds''],
          e_line = 1\<rparr>]"
  by (simp add: entries_build_report proj_fs_def scan_file_def scan_sample)

lemma proj_entries:
  "map e_file (entries (build_report proj_fs [''/'', ''proj'']))
     = [[''/'', ''proj'', ''SomeMod'', ''r6'', ''scripts'', ''sub'', ''File.reds'']]"
  by (simp add: proj_entries_eq)

lemma proj_relative:
  "relative_to [''/'', ''proj'', ''SomeMod'', ''r6'', ''scripts'', ''sub'', ''File.reds''] [''/'', ''proj'']
     = Some [''SomeMod'', ''r6'', ''scripts'', ''sub'', ''File.reds'']"
  using relative_to_append [of "[''/'', ''proj'']" "[''SomeMod'', ''r6'', ''scripts'', ''sub'', ''File.reds'']"]
  by simp

lemma proj_mods:
  "map e_mod (entries (build_report proj_fs [''/'', ''proj''])) = [''sub'']"
proof -
  have r: "resolve proj_fs = (\<lambda>p. p)" by (simp add: proj_fs_def)
  show ?thesis by (simp add: proj_entries_eq enrich_mod r proj_relative mod_of_example)
qed

text \<open>
  Claim C4, as stated, fails: with the root \<open>/proj\<close> and the one file
  \<open>/proj/SomeMod/r6/scripts/sub/File.reds\<close>, the mod of its occurrence is not \<open>SomeMod\<close>.
\<close>

theorem mod_attribution_counterexample:
  "map e_file (entries (build_report proj_fs [''/'', ''proj'']))
     = [[''/'', ''proj'', ''SomeMod'', ''r6'', ''scripts'', ''sub'', ''File.reds'']]
   \<and> map e_mod (entries (build_report proj_fs [''/'', ''proj''])) \<noteq> [''SomeMod'']"
  by (simp add: proj_entries proj_mods)

text \<open>
  The same scan: its only occurrence comes from that file and has the mod \<open>sub\<close>.
\<close>

theorem mod_attribution_witness:
  "map e_file (entries (build_report proj_fs [''/'', ''proj'']))
     = [[''/'', ''proj'', ''SomeMod'', ''r6'', ''scripts'', ''sub'', ''File.reds'']]
   \<and> map e_mod (entries (build_report proj_fs [''/'', ''proj''])) = [''sub'']"
proof -
  have r: "resolve proj_fs = (\<lambda>p. p)" by (simp add: proj_fs_def)
  have f: "\<forall>oc \<in> set (entries (build_report proj_fs [''/'', ''proj''])).
             e_file oc = [''/'', ''proj'', ''SomeMod'', ''r6'', ''scripts'', ''sub'', ''File.reds'']"
    by (simp add: proj_entries_eq)
  from mod_attribution [of proj_fs "[''/'', ''proj'']"] f have
    "\<forall>oc \<in> set (entries (build_report proj_fs [''/'', ''proj''])). e_mod oc = ''sub''"
    by (simp add: r)
  then have "map e_mod (entries (build_report proj_fs [''/'', ''proj''])) = [''sub'']"
    by (simp add: proj_entries_eq)
  with proj_entries show ?thesis by blast
qed


section \<open>Properties of the grouping\<close>

lemma dd_append_map_of:
  "map_of (dd_append d k v) k' =
     (if k' = k then Some (case map_of d k of None \<Rightarrow> [v] | Some vs \<Rightarrow> vs @ [v]) else map_of d k')"
  by (induction d) auto

lemma dd_append_map_fst:
  "map fst (dd_append d k v) = (if k \<in> set (map fst d) then map fst d else map fst d @ [k])"
  by (induction d) force+

lemma dd_append_distinct:
  "distinct (map fst d) \<Longrightarrow> distinct (map fst (dd_append d k v))"
  by (simp add: dd_append_map_fst)

lemma by_key_of_snoc:
  "by_key_of (es @ [e]) = dd_append (by_key_of es) (entry_key e) e"
  by (simp add: by_key_of_def entry_key_def)

lemma by_key_of_distinct: "distinct (map fst (by_key_of es))"
proof (induction es rule: rev_induct)
  case Nil
  show ?case by (simp add: by_key_of_def)
next
  case (snoc e es)
  then show ?case by (simp only: by_key_of_snoc dd_append_distinct)
qed

lemma by_key_of_map_of:
  "map_of (by_key_of es) k =
     (if k \<in> entry_key ` set es then Some (filter (\<lambda>e. entry_key e = k) es) else None)"
proof (induction es arbitrary: k rule: rev_induct)
  case Nil
  show ?case by (simp add: by_key_of_def)
next
  case (snoc e es)
  show ?case
    unfolding by_key_of_snoc dd_append_map_of snoc.IH
    by (auto simp: filter_empty_conv empty_filter_conv image_iff)
qed

lemma by_key_lookup:
  "(case map_of (by_key_of es) k of Some l \<Rightarrow> l | None \<Rightarrow> []) = filter (\<lambda>e. entry_key e = k) es"
  by (auto simp: by_key_of_map_of filter_empty_conv empty_filter_conv)

lemma by_key_keys:
  "fst ` set (by_key_of es) = entry_key ` set es"
proof -
  have "fst ` set (by_key_of es) = dom (map_of (by_key_of es))"
    by (simp add: dom_map_of_conv_image_fst)
  also have "\<dots> = entry_key ` set es"
    by (auto simp: by_key_of_map_of dom_def)
  finally show ?thesis .
qed

lemma dd_update_map_of:
  "map_of (dd_update d k f) k' =
     (if k' = k
      then Some (f (case map_of d k of None \<Rightarrow> \<lparr>replace = [], wrap = [], other = []\<rparr> | Some b \<Rightarrow> b))
      else map_of d k')"
  by (induction d) auto

lemma dd_update_map_fst:
  "map fst (dd_update d k f) = (if k \<in> set (map fst d) then map fst d else map fst d @ [k])"
  by (induction d) force+

lemma by_cm_step_distinct:
  "distinct (map fst cm) \<Longrightarrow> distinct (map fst (by_cm_step cm item))"
  by (cases item) (auto simp: by_cm_step_def dd_update_map_fst)

lemma by_cm_of_snoc: "by_cm_of (bk @ [item]) = by_cm_step (by_cm_of bk) item"
  by (simp add: by_cm_of_def)

lemma by_cm_of_distinct: "distinct (map fst (by_cm_of bk))"
proof (induction bk rule: rev_induct)
  case Nil
  show ?case by (simp add: by_cm_of_def)
next
  case (snoc item bk)
  then show ?case by (simp only: by_cm_of_snoc by_cm_step_distinct)
qed

lemma bucket_of_snoc:
  "bucket_of ann c m (bk @ [(k, l)]) = bucket_of ann c m bk @ (if k = (ann, c, m) then l else [])"
  by (simp add: bucket_of_def)

lemma bucket_of_absent:
  "\<forall>it \<in> set bk. snd (fst it) \<noteq> (c, m) \<Longrightarrow> bucket_of ann c m bk = []"
  by (auto simp: bucket_of_def filter_empty_conv)

lemma by_cm_step_map_of:
  "map_of (by_cm_step cm ((ann, c', m'), l)) (c, m) =
     (if (c, m) = (c', m')
      then Some (let b = (case map_of cm (c', m') of
                            None \<Rightarrow> \<lparr>replace = [], wrap = [], other = []\<rparr> | Some b \<Rightarrow> b)
                 in if ann = ''replaceMethod'' then b\<lparr>replace := replace b @ l\<rparr>
                    else if ann = ''wrapMethod'' then b\<lparr>wrap := wrap b @ l\<rparr>
                    else b\<lparr>other := other b @ l\<rparr>)
      else map_of cm (c, m))"
  by (simp add: by_cm_step_def dd_update_map_of Let_def)

lemma by_cm_of_buckets:
  "case map_of (by_cm_of bk) (c, m) of
     None \<Rightarrow> (\<forall>it \<in> set bk. snd (fst it) \<noteq> (c, m))
   | Some b \<Rightarrow> replace b = bucket_of ''replaceMethod'' c m bk
             \<and> wrap b = bucket_of ''wrapMethod'' c m bk"
proof (induction bk rule: rev_induct)
  case Nil
  show ?case by (simp add: by_cm_of_def)
next
  case (snoc item bk)
  obtain ann c' m' l where item: "item = ((ann, c', m'), l)" by (cases item) auto
  show ?case
  proof (cases "(c, m) = (c', m')")
    case False
    with snoc show ?thesis
      by (auto simp: item by_cm_of_snoc by_cm_step_map_of bucket_of_snoc split: option.splits)
  next
    case True
    show ?thesis
    proof (cases "map_of (by_cm_of bk) (c, m)")
      case None
      with snoc have "\<forall>it \<in> set bk. snd (fst it) \<noteq> (c, m)" by simp
      then have "bucket_of ''replaceMethod'' c m bk = []" "bucket_of ''wrapMethod'' c m bk = []"
        by (simp_all add: bucket_of_absent)
      with None True show ?thesis
        by (simp add: item by_cm_of_snoc by_cm_step_map_of bucket_of_snoc Let_def)
    next
      case (Some b)
      with snoc have "replace b = bucket_of ''replaceMethod'' c m bk"
        "wrap b = bucket_of ''wrapMethod'' c m bk" by simp_all
      with Some True show ?thesis
        by (simp add: item by_cm_of_snoc by_cm_step_map_of bucket_of_snoc Let_def)
    qed
  qed
qed

lemma bucket_of_distinct:
  "distinct (map fst d) \<Longrightarrow>
   concat (map snd (filter (\<lambda>it. fst it = k) d)) = (case map_of d k of Some l \<Rightarrow> l | None \<Rightarrow> [])"
proof (induction d)
  case Nil
  show ?case by simp
next
  case (Cons it d)
  obtain k' l where it: "it = (k', l)" by (cases it) auto
  show ?case
  proof (cases "k' = k")
    case True
    with Cons.prems it have "k \<notin> fst ` set d" by simp
    then have "filter (\<lambda>it. fst it = k) d = []" by (auto simp: filter_empty_conv)
    with True it show ?thesis by simp
  next
    case False
    with Cons it show ?thesis by simp
  qed
qed

lemma bucket_of_by_key:
  "bucket_of ann c m (by_key_of es) = filter (\<lambda>e. entry_key e = (ann, c, m)) es"
  unfolding bucket_of_def
  by (simp only: bucket_of_distinct [OF by_key_of_distinct] by_key_lookup)

lemma by_cm_entries_Some:
  assumes "map_of (by_cm_of (by_key_of es)) (c, m) = Some b"
  shows "replace b = filter (\<lambda>e. entry_key e = (''replaceMethod'', c, m)) es"
    and "wrap b = filter (\<lambda>e. entry_key e = (''wrapMethod'', c, m)) es"
  using by_cm_of_buckets [of "by_key_of es" c m] assms
  by (simp_all add: bucket_of_by_key)

lemma by_cm_entries_None:
  assumes "map_of (by_cm_of (by_key_of es)) (c, m) = None"
  shows "filter (\<lambda>e. entry_key e = (ann, c, m)) es = []"
proof -
  from by_cm_of_buckets [of "by_key_of es" c m] assms
  have "\<forall>it \<in> set (by_key_of es). snd (fst it) \<noteq> (c, m)" by simp
  then have "(ann, c, m) \<notin> fst ` set (by_key_of es)" by force
  then have "(ann, c, m) \<notin> entry_key ` set es" by (simp add: by_key_keys)
  then have "\<forall>e \<in> set es. entry_key e \<noteq> (ann, c, m)" by force
  then show ?thesis by (simp add: filter_empty_conv)
qed

lemma filter_concat_groups:
  assumes d: "distinct (map fst bc)"
    and f: "\<And>k b g. g \<in> set (f (k, b)) \<Longrightarrow> kf g = k"
  shows "filter (\<lambda>g. kf g = cm) (concat (map f bc))
       = (case map_of bc cm of None \<Rightarrow> [] | Some b \<Rightarrow> f (cm, b))"
  using d
proof (induction bc)
  case Nil
  show ?case by simp
next
  case (Cons it bc)
  obtain k b where it: "it = (k, b)" by (cases it) auto
  from f have all: "\<And>k b. \<forall>g \<in> set (f (k, b)). kf g = k" by blast
  show ?case
  proof (cases "k = cm")
    case True
    with Cons.prems it have "cm \<notin> fst ` set bc" by simp
    then have none: "map_of bc cm = None" by (simp add: map_of_eq_None_iff)
    from Cons have "filter (\<lambda>g. kf g = cm) (concat (map f bc)) = []"
      by (simp add: none)
    moreover from all [of cm b] have "filter (\<lambda>g. kf g = cm) (f (cm, b)) = f (cm, b)"
      by (simp add: filter_id_conv)
    ultimately show ?thesis using True it by simp
  next
    case False
    with all [of k b] have "filter (\<lambda>g. kf g = cm) (f (k, b)) = []"
      by (auto simp: filter_empty_conv)
    with Cons False it show ?thesis by simp
  qed
qed


section \<open>Properties of the detection\<close>

lemma report_groups:
  "conflicts (build_report fs root0)
     = concat (map conflict_of (by_cm_of (by_key_of (entries (build_report fs root0)))))"
  "wrap_coexistence (build_report fs root0)
     = concat (map wrap_coexistence_of (by_cm_of (by_key_of (entries (build_report fs root0)))))"
  "replace_wrap_coexistence (build_report fs root0)
     = concat (map replace_wrap_coexistence_of (by_cm_of (by_key_of (entries (build_report fs root0)))))"
  by (simp_all add: build_report_def Let_def)

lemma occurrences_as_keys:
  "replace_occurrences r c m = filter (\<lambda>e. entry_key e = (''replaceMethod'', c, m)) (entries r)"
  "wrap_occurrences r c m = filter (\<lambda>e. entry_key e = (''wrapMethod'', c, m)) (entries r)"
  by (simp_all add: replace_occurrences_def wrap_occurrences_def entry_key_def)

lemma conflict_of_key:
  "g \<in> set (conflict_of (k, b)) \<Longrightarrow> (cg_class g, cg_method g) = k"
  by (cases k) (auto simp: conflict_of_def Let_def split: if_splits)

lemma wrap_coexistence_of_key:
  "g \<in> set (wrap_coexistence_of (k, b)) \<Longrightarrow> (wg_class g, wg_method g) = k"
  by (cases k) (auto simp: wrap_coexistence_of_def Let_def split: if_splits)

lemma replace_wrap_coexistence_of_key:
  "g \<in> set (replace_wrap_coexistence_of (k, b)) \<Longrightarrow> (rw_class g, rw_method g) = k"
  by (cases k) (auto simp: replace_wrap_coexistence_of_def Let_def split: if_splits)

lemma card_files_empty: "card (set (map e_file ([] :: occurrence list))) = 0"
  by simp

lemma conflicts_for_eq:
  "conflicts_for (build_report fs root0) c m =
     (if 1 < card (set (map e_file (replace_occurrences (build_report fs root0) c m)))
      then [\<lparr>cg_class = c, cg_method = m,
             cg_count = length (replace_occurrences (build_report fs root0) c m),
             cg_mods = sorted_set (map e_mod (replace_occurrences (build_report fs root0) c m)),
             cg_occurrences = replace_occurrences (build_report fs root0) c m\<rparr>]
      else [])"
proof -
  let ?r = "build_report fs root0"
  let ?bc = "by_cm_of (by_key_of (entries ?r))"
  have "conflicts_for ?r c m = filter (\<lambda>g. (cg_class g, cg_method g) = (c, m)) (concat (map conflict_of ?bc))"
    by (simp add: conflicts_for_def report_groups(1) [symmetric])
  also have "\<dots> = (case map_of ?bc (c, m) of None \<Rightarrow> [] | Some b \<Rightarrow> conflict_of ((c, m), b))"
    by (rule filter_concat_groups [OF by_cm_of_distinct conflict_of_key])
  finally have eq: "conflicts_for ?r c m
      = (case map_of ?bc (c, m) of None \<Rightarrow> [] | Some b \<Rightarrow> conflict_of ((c, m), b))" .
  show ?thesis
  proof (cases "map_of ?bc (c, m)")
    case None
    from by_cm_entries_None [OF None, of "''replaceMethod''"]
    have "replace_occurrences ?r c m = []" by (simp add: occurrences_as_keys)
    with eq None show ?thesis by simp
  next
    case (Some b)
    from by_cm_entries_Some(1) [OF Some]
    have b: "replace b = replace_occurrences ?r c m" by (simp add: occurrences_as_keys)
    show ?thesis
    proof (cases "replace_occurrences ?r c m = []")
      case True
      with eq Some b show ?thesis by (simp add: conflict_of_def)
    next
      case False
      with eq Some b show ?thesis by (simp add: conflict_of_def Let_def)
    qed
  qed
qed

lemma wrap_coexistence_for_eq:
  "wrap_coexistence_for (build_report fs root0) c m =
     (if 1 < card (set (map e_file (wrap_occurrences (build_report fs root0) c m)))
      then [\<lparr>wg_class = c, wg_method = m,
             wg_wrap_count = length (wrap_occurrences (build_report fs root0) c m),
             wg_mods = sorted_set (map e_mod (wrap_occurrences (build_report fs root0) c m)),
             wg_occurrences = wrap_occurrences (build_report fs root0) c m\<rparr>]
      else [])"
proof -
  let ?r = "build_report fs root0"
  let ?bc = "by_cm_of (by_key_of (entries ?r))"
  have "wrap_coexistence_for ?r c m
      = filter (\<lambda>g. (wg_class g, wg_method g) = (c, m)) (concat (map wrap_coexistence_of ?bc))"
    by (simp add: wrap_coexistence_for_def report_groups(2) [symmetric])
  also have "\<dots> = (case map_of ?bc (c, m) of None \<Rightarrow> [] | Some b \<Rightarrow> wrap_coexistence_of ((c, m), b))"
    by (rule filter_concat_groups [OF by_cm_of_distinct wrap_coexistence_of_key])
  finally have eq: "wrap_coexistence_for ?r c m
      = (case map_of ?bc (c, m) of None \<Rightarrow> [] | Some b \<Rightarrow> wrap_coexistence_of ((c, m), b))" .
  show ?thesis
  proof (cases "map_of ?bc (c, m)")
    case None
    from by_cm_entries_None [OF None, of "''wrapMethod''"]
    have "wrap_occurrences ?r c m = []" by (simp add: occurrences_as_keys)
    with eq None show ?thesis by simp
  next
    case (Some b)
    from by_cm_entries_Some(2) [OF Some]
    have b: "wrap b = wrap_occurrences ?r c m" by (simp add: occurrences_as_keys)
    show ?thesis
    proof (cases "wrap_occurrences ?r c m = []")
      case True
      with eq Some b show ?thesis by (simp add: wrap_coexistence_of_def)
    next
      case False
      with eq Some b show ?thesis by (simp add: wrap_coexistence_of_def Let_def)
    qed
  qed
qed

lemma replace_wrap_coexistence_for_eq:
  "replace_wrap_coexistence_for (build_report fs root0) c m =
     (if replace_occurrences (build_report fs root0) c m \<noteq> []
         \<and> wrap_occurrences (build_report fs root0) c m \<noteq> []
      then [\<lparr>rw_class = c, rw_method = m,
             rw_replace_count = length (replace_occurrences (build_report fs root0) c m),
             rw_wrap_count = length (wrap_occurrences (build_report fs root0) c m),
             rw_mods_replace = sorted_set (map e_mod (replace_occurrences (build_report fs root0) c m)),
             rw_mods_wrap = sorted_set (map e_mod (wrap_occurrences (build_report fs root0) c m)),
             rw_occurrences_replace = replace_occurrences (build_report fs root0) c m,
             rw_occurrences_wrap = wrap_occurrences (build_report fs root0) c m\<rparr>]
      else [])"
proof -
  let ?r = "build_report fs root0"
  let ?bc = "by_cm_of (by_key_of (entries ?r))"
  have "replace_wrap_coexistence_for ?r c m
      = filter (\<lambda>g. (rw_class g, rw_method g) = (c, m)) (concat (map replace_wrap_coexistence_of ?bc))"
    by (simp add: replace_wrap_coexistence_for_def report_groups(3) [symmetric])
  also have "\<dots> = (case map_of ?bc (c, m) of None \<Rightarrow> []
                     | Some b \<Rightarrow> replace_wrap_coexistence_of ((c, m), b))"
    by (rule filter_concat_groups [OF by_cm_of_distinct replace_wrap_coexistence_of_key])
  finally have eq: "replace_wrap_coexistence_for ?r c m
      = (case map_of ?bc (c, m) of None \<Rightarrow> [] | Some b \<Rightarrow> replace_wrap_coexistence_of ((c, m), b))" .
  show ?thesis
  proof (cases "map_of ?bc (c, m)")
    case None
    from by_cm_entries_None [OF None, of "''replaceMethod''"]
    have "replace_occurrences ?r c m = []" by (simp add: occurrences_as_keys)
    with eq None show ?thesis by simp
  next
    case (Some b)
    from by_cm_entries_Some [OF Some]
    have b: "replace b = replace_occurrences ?r c m" "wrap b = wrap_occurrences ?r c m"
      by (simp_all add: occurrences_as_keys)
    with eq Some show ?thesis by (simp add: replace_wrap_coexistence_of_def Let_def)
  qed
qed

lemma card_files_ge2: "(2 \<le> card (e_file ` set xs)) = (1 < card (set (map e_file xs)))"
  by auto

text \<open>
  Claim C1. In the report of any scan, take the \<open>replaceMethod\<close> occurrences of a class
  and method. When they all come from exactly one file, the conflicts hold no group for that
  class and method, however many occurrences there are. When they come from two or more
  files, the conflicts hold exactly one group for it, whose count is the number of those
  occurrences and whose occurrences are those.
\<close>

theorem conflict_threshold:
  "(card (e_file ` set (replace_occurrences (build_report fs root0) c m)) = 1
      \<longrightarrow> conflicts_for (build_report fs root0) c m = [])
   \<and> (2 \<le> card (e_file ` set (replace_occurrences (build_report fs root0) c m))
      \<longrightarrow> conflicts_for (build_report fs root0) c m =
            [\<lparr>cg_class = c, cg_method = m,
               cg_count = length (replace_occurrences (build_report fs root0) c m),
               cg_mods = sorted_set (map e_mod (replace_occurrences (build_report fs root0) c m)),
               cg_occurrences = replace_occurrences (build_report fs root0) c m\<rparr>])"
  by (simp add: conflicts_for_eq)

text \<open>
  Claim C6. For every class and method the report holds a replace-wrap coexistence group
  exactly when the key has a \<open>replaceMethod\<close> and a \<open>wrapMethod\<close> occurrence, and then
  exactly one, carrying both lists; the number of files plays no part. In particular, when
  both kinds occur and each comes from one file only, the group is there although the key
  has neither a conflict group nor a wrap coexistence group.
\<close>

theorem replace_wrap_rule:
  "replace_wrap_coexistence_for (build_report fs root0) c m =
     (if replace_occurrences (build_report fs root0) c m \<noteq> []
         \<and> wrap_occurrences (build_report fs root0) c m \<noteq> []
      then [\<lparr>rw_class = c, rw_method = m,
             rw_replace_count = length (replace_occurrences (build_report fs root0) c m),
             rw_wrap_count = length (wrap_occurrences (build_report fs root0) c m),
             rw_mods_replace = sorted_set (map e_mod (replace_occurrences (build_report fs root0) c m)),
             rw_mods_wrap = sorted_set (map e_mod (wrap_occurrences (build_report fs root0) c m)),
             rw_occurrences_replace = replace_occurrences (build_report fs root0) c m,
             rw_occurrences_wrap = wrap_occurrences (build_report fs root0) c m\<rparr>]
      else [])
   \<and> ((\<exists>g \<in> set (replace_wrap_coexistence (build_report fs root0)). rw_class g = c \<and> rw_method g = m)
        = (replace_occurrences (build_report fs root0) c m \<noteq> []
           \<and> wrap_occurrences (build_report fs root0) c m \<noteq> []))
   \<and> (replace_occurrences (build_report fs root0) c m \<noteq> []
        \<and> wrap_occurrences (build_report fs root0) c m \<noteq> []
        \<and> card (e_file ` set (replace_occurrences (build_report fs root0) c m)) = 1
        \<and> card (e_file ` set (wrap_occurrences (build_report fs root0) c m)) = 1
       \<longrightarrow> conflicts_for (build_report fs root0) c m = []
           \<and> wrap_coexistence_for (build_report fs root0) c m = []
           \<and> replace_wrap_coexistence_for (build_report fs root0) c m \<noteq> [])"
proof -
  let ?r = "build_report fs root0"
  have ex: "(\<exists>g \<in> set (replace_wrap_coexistence ?r). rw_class g = c \<and> rw_method g = m)
              = (replace_wrap_coexistence_for ?r c m \<noteq> [])"
    by (auto simp: replace_wrap_coexistence_for_def filter_empty_conv)
  show ?thesis
    by (simp add: ex replace_wrap_coexistence_for_eq conflicts_for_eq wrap_coexistence_for_eq)
qed

lemma sorted_set_props: "sorted (sorted_set xs)" "distinct (sorted_set xs)" "set (sorted_set xs) = set xs"
  by (simp_all add: sorted_set_def)

lemma in_concat_map: "g \<in> set (concat (map f xs)) \<Longrightarrow> \<exists>x \<in> set xs. g \<in> set (f x)"
  by auto

text \<open>
  Claim C10. In every group of the three lists the mods are in ascending order, without
  duplicates, and are the mods of the group's occurrences of that kind.
\<close>

theorem mods_sorted_unique:
  "(\<forall>g \<in> set (conflicts (build_report fs root0)).
       sorted (cg_mods g) \<and> distinct (cg_mods g) \<and> set (cg_mods g) = e_mod ` set (cg_occurrences g))
   \<and> (\<forall>g \<in> set (wrap_coexistence (build_report fs root0)).
       sorted (wg_mods g) \<and> distinct (wg_mods g) \<and> set (wg_mods g) = e_mod ` set (wg_occurrences g))
   \<and> (\<forall>g \<in> set (replace_wrap_coexistence (build_report fs root0)).
       sorted (rw_mods_replace g) \<and> distinct (rw_mods_replace g)
       \<and> set (rw_mods_replace g) = e_mod ` set (rw_occurrences_replace g)
       \<and> sorted (rw_mods_wrap g) \<and> distinct (rw_mods_wrap g)
       \<and> set (rw_mods_wrap g) = e_mod ` set (rw_occurrences_wrap g))"
proof (intro conjI ballI)
  fix g assume "g \<in> set (conflicts (build_report fs root0))"
  then obtain it where "g \<in> set (conflict_of it)"
    unfolding report_groups(1) by (blast dest: in_concat_map)
  then have g: "cg_mods g = sorted_set (map e_mod (cg_occurrences g))"
    by (cases it) (auto simp: conflict_of_def Let_def split: if_splits)
  show "sorted (cg_mods g)" "distinct (cg_mods g)" "set (cg_mods g) = e_mod ` set (cg_occurrences g)"
    by (simp_all add: g sorted_set_props)
next
  fix g assume "g \<in> set (wrap_coexistence (build_report fs root0))"
  then obtain it where "g \<in> set (wrap_coexistence_of it)"
    unfolding report_groups(2) by (blast dest: in_concat_map)
  then have g: "wg_mods g = sorted_set (map e_mod (wg_occurrences g))"
    by (cases it) (auto simp: wrap_coexistence_of_def Let_def split: if_splits)
  show "sorted (wg_mods g)" "distinct (wg_mods g)" "set (wg_mods g) = e_mod ` set (wg_occurrences g)"
    by (simp_all add: g sorted_set_props)
next
  fix g assume "g \<in> set (replace_wrap_coexistence (build_report fs root0))"
  then obtain it where "g \<in> set (replace_wrap_coexistence_of it)"
    unfolding report_groups(3) by (blast dest: in_concat_map)
  then have g: "rw_mods_replace g = sorted_set (map e_mod (rw_occurrences_replace g))"
    "rw_mods_wrap g = sorted_set (map e_mod (rw_occurrences_wrap g))"
    by (cases it; auto simp: replace_wrap_coexistence_of_def Let_def split: if_splits)+
  show "sorted (rw_mods_replace g)" "distinct (rw_mods_replace g)"
    "set (rw_mods_replace g) = e_mod ` set (rw_occurrences_replace g)"
    "sorted (rw_mods_wrap g)" "distinct (rw_mods_wrap g)"
    "set (rw_mods_wrap g) = e_mod ` set (rw_occurrences_wrap g)"
    by (simp_all add: g sorted_set_props)
qed


section \<open>Scans of example trees\<close>

lemma scan_both:
  "scan_lines p (splitlines both_text) =
     [\<lparr>e_annotation = ''replaceMethod'', e_class = ''Foo'', e_method = ''Bar'',
        e_func_sig = ''func Bar(a: Int32) -> Int32 {'', e_file = p, e_line = 1\<rparr>,
      \<lparr>e_annotation = ''wrapMethod'', e_class = ''Foo'', e_method = ''Bar'',
        e_func_sig = ''func Bar(a: Int32) -> Int32 {'', e_file = p, e_line = 4\<rparr>]"
  by code_simp

lemma scan_dup:
  "scan_lines p (splitlines dup_text) =
     [\<lparr>e_annotation = ''replaceMethod'', e_class = ''Baz'', e_method = ''Qux'',
        e_func_sig = ''func Qux()'', e_file = p, e_line = 1\<rparr>,
      \<lparr>e_annotation = ''replaceMethod'', e_class = ''Baz'', e_method = ''Qux'',
        e_func_sig = ''func Qux()'', e_file = p, e_line = 3\<rparr>]"
  by code_simp

lemma mod_of_direct:
  "mod_of_parts [''ZMod'', ''bar1.reds''] = ''ZMod''"
  "mod_of_parts [''AMod'', ''bar2.reds''] = ''AMod''"
  "mod_of_parts [''AMod'', ''dup.reds''] = ''AMod''"
  by code_simp+

lemma enrich_mod_below:
  "resolve fs (e_file e) = root @ parts \<Longrightarrow> e_mod (enrich fs root e) = mod_of_parts parts"
  by (simp add: enrich_mod relative_to_append)

lemma scenario_entries:
  "entries scenario_report = map (enrich scenario_fs [''/'', ''mods''])
     [\<lparr>e_annotation = ''replaceMethod'', e_class = ''Foo'', e_method = ''Bar'',
        e_func_sig = ''func Bar(a: Int32) -> Int32 {'',
        e_file = [''/'', ''mods'', ''ZMod'', ''bar1.reds''], e_line = 1\<rparr>,
      \<lparr>e_annotation = ''wrapMethod'', e_class = ''Foo'', e_method = ''Bar'',
        e_func_sig = ''func Bar(a: Int32) -> Int32 {'',
        e_file = [''/'', ''mods'', ''ZMod'', ''bar1.reds''], e_line = 4\<rparr>,
      \<lparr>e_annotation = ''replaceMethod'', e_class = ''Foo'', e_method = ''Bar'',
        e_func_sig = ''func Bar(a: Int32) -> Int32 {'',
        e_file = [''/'', ''mods'', ''AMod'', ''bar2.reds''], e_line = 1\<rparr>,
      \<lparr>e_annotation = ''wrapMethod'', e_class = ''Foo'', e_method = ''Bar'',
        e_func_sig = ''func Bar(a: Int32) -> Int32 {'',
        e_file = [''/'', ''mods'', ''AMod'', ''bar2.reds''], e_line = 4\<rparr>,
      \<lparr>e_annotation = ''replaceMethod'', e_class = ''Baz'', e_method = ''Qux'',
        e_func_sig = ''func Qux()'',
        e_file = [''/'', ''mods'', ''AMod'', ''dup.reds''], e_line = 1\<rparr>,
      \<lparr>e_annotation = ''replaceMethod'', e_class = ''Baz'', e_method = ''Qux'',
        e_func_sig = ''func Qux()'',
        e_file = [''/'', ''mods'', ''AMod'', ''dup.reds''], e_line = 3\<rparr>]"
  by (simp add: scenario_report_def entries_build_report scenario_fs_def scan_file_def path_name_def
        scan_both scan_dup)

lemma single_entries:
  "entries single_report = map (enrich single_fs [''/'', ''mods''])
     [\<lparr>e_annotation = ''replaceMethod'', e_class = ''Foo'', e_method = ''Bar'',
        e_func_sig = ''func Bar(a: Int32) -> Int32 {'',
        e_file = [''/'', ''mods'', ''AMod'', ''bar2.reds''], e_line = 1\<rparr>,
      \<lparr>e_annotation = ''wrapMethod'', e_class = ''Foo'', e_method = ''Bar'',
        e_func_sig = ''func Bar(a: Int32) -> Int32 {'',
        e_file = [''/'', ''mods'', ''AMod'', ''bar2.reds''], e_line = 4\<rparr>]"
  by (simp add: single_report_def entries_build_report single_fs_def scan_file_def scan_both)

lemma scenario_resolve: "resolve scenario_fs p = p"
  by (simp add: scenario_fs_def)

lemma scenario_mods:
  "e_file e = [''/'', ''mods'', ''ZMod'', ''bar1.reds'']
     \<Longrightarrow> e_mod (enrich scenario_fs [''/'', ''mods''] e) = ''ZMod''"
  "e_file e = [''/'', ''mods'', ''AMod'', ''bar2.reds'']
     \<Longrightarrow> e_mod (enrich scenario_fs [''/'', ''mods''] e) = ''AMod''"
  using enrich_mod_below [of scenario_fs e "[''/'', ''mods'']" "[''ZMod'', ''bar1.reds'']"]
    enrich_mod_below [of scenario_fs e "[''/'', ''mods'']" "[''AMod'', ''bar2.reds'']"]
  by (simp_all add: scenario_resolve mod_of_direct)

lemma scenario_replace_bar:
  "map e_file (replace_occurrences scenario_report ''Foo'' ''Bar'')
     = [[''/'', ''mods'', ''ZMod'', ''bar1.reds''], [''/'', ''mods'', ''AMod'', ''bar2.reds'']]"
  "map e_mod (replace_occurrences scenario_report ''Foo'' ''Bar'') = [''ZMod'', ''AMod'']"
proof -
  have occ: "replace_occurrences scenario_report ''Foo'' ''Bar'' =
     map (enrich scenario_fs [''/'', ''mods''])
       [\<lparr>e_annotation = ''replaceMethod'', e_class = ''Foo'', e_method = ''Bar'',
          e_func_sig = ''func Bar(a: Int32) -> Int32 {'',
          e_file = [''/'', ''mods'', ''ZMod'', ''bar1.reds''], e_line = 1\<rparr>,
        \<lparr>e_annotation = ''replaceMethod'', e_class = ''Foo'', e_method = ''Bar'',
          e_func_sig = ''func Bar(a: Int32) -> Int32 {'',
          e_file = [''/'', ''mods'', ''AMod'', ''bar2.reds''], e_line = 1\<rparr>]"
    by (simp add: replace_occurrences_def scenario_entries)
  show "map e_file (replace_occurrences scenario_report ''Foo'' ''Bar'')
     = [[''/'', ''mods'', ''ZMod'', ''bar1.reds''], [''/'', ''mods'', ''AMod'', ''bar2.reds'']]"
    by (simp add: occ)
  show "map e_mod (replace_occurrences scenario_report ''Foo'' ''Bar'') = [''ZMod'', ''AMod'']"
    by (simp add: occ scenario_mods)
qed

lemma scenario_replace_qux:
  "map e_file (replace_occurrences scenario_report ''Baz'' ''Qux'')
     = [[''/'', ''mods'', ''AMod'', ''dup.reds''], [''/'', ''mods'', ''AMod'', ''dup.reds'']]"
  by (simp add: replace_occurrences_def scenario_entries)

lemma card_of_map: "card (f ` set xs) = card (set (map f xs))"
  by simp

text \<open>
  Two files that replace \<open>Foo.Bar\<close> once each: one group of count 2. One file that
  replaces \<open>Baz.Qux\<close> twice: no group.
\<close>

theorem conflict_threshold_witness:
  "map e_file (replace_occurrences scenario_report ''Foo'' ''Bar'')
     = [[''/'', ''mods'', ''ZMod'', ''bar1.reds''], [''/'', ''mods'', ''AMod'', ''bar2.reds'']]
   \<and> map cg_count (conflicts_for scenario_report ''Foo'' ''Bar'') = [2]
   \<and> map e_file (replace_occurrences scenario_report ''Baz'' ''Qux'')
     = [[''/'', ''mods'', ''AMod'', ''dup.reds''], [''/'', ''mods'', ''AMod'', ''dup.reds'']]
   \<and> conflicts_for scenario_report ''Baz'' ''Qux'' = []"
proof -
  have c2: "2 \<le> card (e_file ` set (replace_occurrences scenario_report ''Foo'' ''Bar''))"
    unfolding card_of_map scenario_replace_bar by simp
  have l2: "length (replace_occurrences scenario_report ''Foo'' ''Bar'') = 2"
    using arg_cong [OF scenario_replace_bar(1), of length] by simp
  have c1: "card (e_file ` set (replace_occurrences scenario_report ''Baz'' ''Qux'')) = 1"
    unfolding card_of_map scenario_replace_qux by simp
  from conflict_threshold [of scenario_fs "[''/'', ''mods'']" "''Foo''" "''Bar''"] c2
  have "map cg_count (conflicts_for scenario_report ''Foo'' ''Bar'') = [2]"
    by (simp add: scenario_report_def [symmetric] l2)
  moreover from conflict_threshold [of scenario_fs "[''/'', ''mods'']" "''Baz''" "''Qux''"] c1
  have "conflicts_for scenario_report ''Baz'' ''Qux'' = []"
    by (simp add: scenario_report_def [symmetric])
  ultimately show ?thesis using scenario_replace_bar(1) scenario_replace_qux by blast
qed

lemma single_occurrences:
  "map e_file (replace_occurrences single_report ''Foo'' ''Bar'') = [[''/'', ''mods'', ''AMod'', ''bar2.reds'']]"
  "map e_file (wrap_occurrences single_report ''Foo'' ''Bar'') = [[''/'', ''mods'', ''AMod'', ''bar2.reds'']]"
  by (simp_all add: replace_occurrences_def wrap_occurrences_def single_entries)

text \<open>
  One file that replaces and wraps \<open>Foo.Bar\<close>: a replace-wrap group with counts 1 and 1,
  no conflict group, no wrap coexistence group.
\<close>

theorem replace_wrap_rule_witness:
  "map e_file (replace_occurrences single_report ''Foo'' ''Bar'') = [[''/'', ''mods'', ''AMod'', ''bar2.reds'']]
   \<and> map e_file (wrap_occurrences single_report ''Foo'' ''Bar'') = [[''/'', ''mods'', ''AMod'', ''bar2.reds'']]
   \<and> map rw_replace_count (replace_wrap_coexistence_for single_report ''Foo'' ''Bar'') = [1]
   \<and> map rw_wrap_count (replace_wrap_coexistence_for single_report ''Foo'' ''Bar'') = [1]
   \<and> conflicts_for single_report ''Foo'' ''Bar'' = []
   \<and> wrap_coexistence_for single_report ''Foo'' ''Bar'' = []"
proof -
  have r: "replace_occurrences single_report ''Foo'' ''Bar'' \<noteq> []"
    "length (replace_occurrences single_report ''Foo'' ''Bar'') = 1"
    "card (e_file ` set (replace_occurrences single_report ''Foo'' ''Bar'')) = 1"
    using arg_cong [OF single_occurrences(1), of length] arg_cong [OF single_occurrences(1), of set]
    by auto
  have w: "wrap_occurrences single_report ''Foo'' ''Bar'' \<noteq> []"
    "length (wrap_occurrences single_report ''Foo'' ''Bar'') = 1"
    "card (e_file ` set (wrap_occurrences single_report ''Foo'' ''Bar'')) = 1"
    using arg_cong [OF single_occurrences(2), of length] arg_cong [OF single_occurrences(2), of set]
    by auto
  from replace_wrap_rule [of single_fs "[''/'', ''mods'']" "''Foo''" "''Bar''"] r w
  have "map rw_replace_count (replace_wrap_coexistence_for single_report ''Foo'' ''Bar'') = [1]
      \<and> map rw_wrap_count (replace_wrap_coexistence_for single_report ''Foo'' ''Bar'') = [1]
      \<and> conflicts_for single_report ''Foo'' ''Bar'' = []
      \<and> wrap_coexistence_for single_report ''Foo'' ''Bar'' = []"
    by (simp add: single_report_def [symmetric])
  with single_occurrences show ?thesis by blast
qed

lemma sorted_set_example: "sorted_set [''ZMod'', ''AMod''] = [''AMod'', ''ZMod'']"
  by (simp add: sorted_set_def)

text \<open>
  The conflict group of \<open>Foo.Bar\<close>: its occurrences come from \<open>ZMod\<close> then \<open>AMod\<close>, its
  mods are \<open>AMod\<close>, \<open>ZMod\<close>.
\<close>

theorem mods_sorted_unique_witness:
  "map e_mod (cg_occurrences (hd (conflicts_for scenario_report ''Foo'' ''Bar''))) = [''ZMod'', ''AMod'']
   \<and> cg_mods (hd (conflicts_for scenario_report ''Foo'' ''Bar'')) = [''AMod'', ''ZMod'']
   \<and> sorted (cg_mods (hd (conflicts_for scenario_report ''Foo'' ''Bar'')))
   \<and> distinct (cg_mods (hd (conflicts_for scenario_report ''Foo'' ''Bar'')))"
proof -
  let ?g = "hd (conflicts_for scenario_report ''Foo'' ''Bar'')"
  have c2: "1 < card (set (map e_file (replace_occurrences scenario_report ''Foo'' ''Bar'')))"
    unfolding scenario_replace_bar by simp
  have eq: "conflicts_for scenario_report ''Foo'' ''Bar'' =
      [\<lparr>cg_class = ''Foo'', cg_method = ''Bar'',
         cg_count = length (replace_occurrences scenario_report ''Foo'' ''Bar''),
         cg_mods = sorted_set (map e_mod (replace_occurrences scenario_report ''Foo'' ''Bar'')),
         cg_occurrences = replace_occurrences scenario_report ''Foo'' ''Bar''\<rparr>]"
    using conflicts_for_eq [of scenario_fs "[''/'', ''mods'']" "''Foo''" "''Bar''"] c2
    by (simp add: scenario_report_def [symmetric])
  have occ: "map e_mod (cg_occurrences ?g) = [''ZMod'', ''AMod'']"
    by (simp add: eq scenario_replace_bar)
  have mods: "cg_mods ?g = [''AMod'', ''ZMod'']"
    by (simp add: eq scenario_replace_bar sorted_set_example)
  have "?g \<in> set (conflicts_for scenario_report ''Foo'' ''Bar'')" by (simp add: eq)
  then have "?g \<in> set (conflicts (build_report scenario_fs [''/'', ''mods'']))"
    by (simp add: conflicts_for_def scenario_report_def)
  with mods_sorted_unique [of scenario_fs "[''/'', ''mods'']"]
  have "sorted (cg_mods ?g) \<and> distinct (cg_mods ?g)" by blast
  with occ mods show ?thesis by blast
qed


section \<open>The scorer on arguments of any type\<close>

lemma is_Exception_all: "is_Exception e"
  by (cases e) simp_all

lemma ebind_eq_Inr: "(ebind m f = Inr r) = (\<exists>x. m = Inr x \<and> f x = Inr r)"
  by (cases m) simp_all

lemma ebind_assoc: "ebind (ebind m f) g = ebind m (\<lambda>x. ebind (f x) g)"
  by (cases m) simp_all

lemma compute_impact_unified_any_alt:
  "compute_impact_unified_any ios env cls meth mods ents config w =
     (case impact_body_any ios (fst (effective_config_any env config)) cls meth mods ents w of
        Inr r \<Rightarrow> (Inr r, snd (effective_config_any env config))
      | Inl e \<Rightarrow> (Inr \<lparr>severity = [], message = []\<rparr>, snd (effective_config_any env config)))"
  by (simp add: compute_impact_unified_any_def is_Exception_all split: prod.splits sum.splits)

lemma impact_body_any_tier:
  assumes "impact_body_any ios cfg cls meth mods ents w = Inr r"
  shows "severity r \<in> {''Low'', ''Medium'', ''High'', ''Critical''}"
proof -
  from assms obtain th score sev msg where
    "severity_of_score ios th score = Inr sev" "r = \<lparr>severity = sev, message = msg\<rparr>"
    unfolding impact_body_any_def Let_def split_beta ebind_eq_Inr by blast
  then show ?thesis using severity_of_score_tier by fastforce
qed

lemma py_get_not_dict: "\<forall>d. v \<noteq> PDict d \<Longrightarrow> py_get v k dflt = Inl AttributeError"
  by (cases v) simp_all

lemma py_lower_not_str: "\<forall>s. v \<noteq> PStr s \<Longrightarrow> py_lower v = Inl AttributeError"
  by (cases v) simp_all

lemma body_config_not_dict:
  "\<forall>d. cfg \<noteq> PDict d \<Longrightarrow> impact_body_any ios cfg cls meth mods ents w = Inl AttributeError"
  by (simp add: impact_body_any_def py_get_not_dict)

lemma body_weights_not_dict:
  assumes "map_of c ''weights'' = Some wv" "truthy wv" "\<forall>d. wv \<noteq> PDict d"
  shows "\<exists>e. impact_body_any ios (PDict c) cls meth mods ents w = Inl e"
proof (cases "len_set (py_or mods (PList []))")
  case (Inl e)
  with assms show ?thesis by (simp add: impact_body_any_def dict_get_def py_or_def Let_def)
next
  case (Inr n)
  with assms show ?thesis
    by (simp add: impact_body_any_def dict_get_def py_or_def Let_def py_get_not_dict)
qed

lemma body_weight_not_int:
  assumes "map_of c ''weights'' = Some (PDict wd)" "map_of wd ''per_mod'' = Some v"
    "py_int ios v = Inl e0"
  shows "\<exists>e. impact_body_any ios (PDict c) cls meth mods ents w = Inl e"
proof -
  from assms(2) have "wd \<noteq> []" by auto
  show ?thesis
  proof (cases "len_set (py_or mods (PList []))")
    case (Inl e)
    with assms \<open>wd \<noteq> []\<close> show ?thesis
      by (simp add: impact_body_any_def dict_get_def py_or_def Let_def)
  next
    case (Inr n)
    with assms \<open>wd \<noteq> []\<close> show ?thesis
      by (simp add: impact_body_any_def dict_get_def py_or_def Let_def)
  qed
qed

lemma body_cls_not_str:
  assumes "truthy cls" "\<forall>s. cls \<noteq> PStr s"
  shows "\<exists>e. impact_body_any ios cfg cls meth mods ents w = Inl e"
proof -
  have l: "py_lower (py_or cls (PStr [])) = Inl AttributeError"
    using assms by (simp add: py_or_def py_lower_not_str)
  have "impact_body_any ios cfg cls meth mods ents w = Inr r \<Longrightarrow> False" for r
    unfolding impact_body_any_def Let_def split_beta ebind_eq_Inr l by blast
  then show ?thesis by (cases "impact_body_any ios cfg cls meth mods ents w") auto
qed

lemma set_keys_strs: "set_keys (map PStr xs) = Inr (map PStr xs)"
  by (induction xs) simp_all

lemma len_set_strs: "len_set (py_or (PList (map PStr mods)) (PList [])) = Inr (card (set mods))"
proof -
  have "card (PStr ` set mods) = card (set mods)"
    by (rule card_image) (simp add: inj_on_def)
  then show ?thesis by (simp add: py_or_def set_keys_strs)
qed

lemma py_lower_str: "py_lower (py_or (PStr s) (PStr [])) = Inr (lower s)"
  by (simp add: py_or_def lower_def)

lemma first_func_sig_any_dicts:
  "first_func_sig_any (PList (map PDict ents)) = Inr (first_func_sig ents)"
  by (cases ents) (simp_all add: first_func_sig_any_def first_func_sig_def)

lemma impact_body_any_typed:
  "impact_body_any ios (PDict cfg) (PStr cls) (PStr meth) (PList (map PStr mods))
      (PList (map PDict ents)) (PBool w)
   = impact_body ios cfg cls meth mods ents w"
  by (simp add: impact_body_any_def impact_body_def impact_score_def base_score_def
        weights_of_def wrap_coexist_bonus_def impact_message_def classify_conflict_symptom_def
        Let_def split_beta ebind_assoc len_set_strs py_lower_str first_func_sig_any_dicts
        cong: if_cong)


section \<open>Exceptions and determinism of the scorer\<close>

text \<open>
  On arguments of the annotated types the scorer on arbitrary values is the typed one.
\<close>

lemma effective_config_any_typed:
  "effective_config_any env (case config of None \<Rightarrow> PNone | Some c \<Rightarrow> PDict c)
     = (PDict (fst (effective_config env config)), snd (effective_config env config))"
  by (cases config) (simp_all add: effective_config_any_def effective_config_def split: prod.splits)

lemma compute_impact_unified_any_typed:
  "compute_impact_unified_any ios env (PStr cls) (PStr meth) (PList (map PStr mods))
      (PList (map PDict ents)) (case config of None \<Rightarrow> PNone | Some c \<Rightarrow> PDict c) (PBool w)
   = (Inr (fst (compute_impact_unified ios env cls meth mods ents config w)),
      snd (compute_impact_unified ios env cls meth mods ents config w))"
  by (simp add: compute_impact_unified_any_alt compute_impact_unified_alt
        effective_config_any_typed impact_body_any_typed split: sum.splits)

lemma effective_config_any_truthy: "truthy config \<Longrightarrow> effective_config_any env config = (config, env)"
  by (simp add: effective_config_any_def)

lemma compute_any_empty_iff:
  "(fst (compute_impact_unified_any ios env cls meth mods ents config w)
      = Inr \<lparr>severity = [], message = []\<rparr>)
   = (\<exists>e. impact_body_any ios (fst (effective_config_any env config)) cls meth mods ents w = Inl e)"
proof (cases "impact_body_any ios (fst (effective_config_any env config)) cls meth mods ents w")
  case (Inl e)
  then show ?thesis by (simp add: compute_impact_unified_any_alt)
next
  case (Inr r)
  from impact_body_any_tier [OF Inr] have "severity r \<noteq> []" by auto
  then have "r \<noteq> \<lparr>severity = [], message = []\<rparr>" by auto
  with Inr show ?thesis by (simp add: compute_impact_unified_any_alt)
qed

lemma compute_any_returns:
  "\<exists>r. fst (compute_impact_unified_any ios env cls meth mods ents config w) = Inr r
       \<and> (r = \<lparr>severity = [], message = []\<rparr>
          \<or> severity r \<in> {''Low'', ''Medium'', ''High'', ''Critical''})"
proof (cases "impact_body_any ios (fst (effective_config_any env config)) cls meth mods ents w")
  case (Inl e)
  then show ?thesis by (simp add: compute_impact_unified_any_alt)
next
  case (Inr r)
  with impact_body_any_tier [OF Inr] show ?thesis by (simp add: compute_impact_unified_any_alt)
qed

text \<open>
  Claim C8. For arguments and configuration of any type, the call returns a value: no
  exception leaves the function. The value is the empty severity and message exactly when
  the body raised, and carries one of the four tiers otherwise. In particular the result is
  empty for a configuration that is not a dict, for \<open>weights\<close> that is not a dict, for a
  \<open>per_mod\<close> weight that \<open>int\<close> rejects, and for a class name that is not a \<open>str\<close>.
\<close>

theorem never_raises:
  "(\<exists>r. fst (compute_impact_unified_any ios env cls meth mods ents config w) = Inr r
        \<and> (r = \<lparr>severity = [], message = []\<rparr>
           \<or> severity r \<in> {''Low'', ''Medium'', ''High'', ''Critical''}))
   \<and> ((fst (compute_impact_unified_any ios env cls meth mods ents config w)
          = Inr \<lparr>severity = [], message = []\<rparr>)
       = (\<exists>e. impact_body_any ios (fst (effective_config_any env config)) cls meth mods ents w
                = Inl e))
   \<and> (truthy config \<and> (\<forall>d. config \<noteq> PDict d)
        \<longrightarrow> fst (compute_impact_unified_any ios env cls meth mods ents config w)
            = Inr \<lparr>severity = [], message = []\<rparr>)
   \<and> (config = PDict c \<and> map_of c ''weights'' = Some wv \<and> truthy wv \<and> (\<forall>d. wv \<noteq> PDict d)
        \<longrightarrow> fst (compute_impact_unified_any ios env cls meth mods ents config w)
            = Inr \<lparr>severity = [], message = []\<rparr>)
   \<and> (config = PDict c \<and> map_of c ''weights'' = Some (PDict wd)
         \<and> map_of wd ''per_mod'' = Some v \<and> py_int ios v = Inl e0
        \<longrightarrow> fst (compute_impact_unified_any ios env cls meth mods ents config w)
            = Inr \<lparr>severity = [], message = []\<rparr>)
   \<and> (truthy cls \<and> (\<forall>s. cls \<noteq> PStr s)
        \<longrightarrow> fst (compute_impact_unified_any ios env cls meth mods ents config w)
            = Inr \<lparr>severity = [], message = []\<rparr>)"
proof (intro conjI impI)
  show "\<exists>r. fst (compute_impact_unified_any ios env cls meth mods ents config w) = Inr r
        \<and> (r = \<lparr>severity = [], message = []\<rparr>
           \<or> severity r \<in> {''Low'', ''Medium'', ''High'', ''Critical''})"
    by (rule compute_any_returns)
next
  show "(fst (compute_impact_unified_any ios env cls meth mods ents config w)
          = Inr \<lparr>severity = [], message = []\<rparr>)
       = (\<exists>e. impact_body_any ios (fst (effective_config_any env config)) cls meth mods ents w
                = Inl e)"
    by (rule compute_any_empty_iff)
next
  assume a: "truthy config \<and> (\<forall>d. config \<noteq> PDict d)"
  then have "impact_body_any ios (fst (effective_config_any env config)) cls meth mods ents w
               = Inl AttributeError"
    by (simp add: effective_config_any_truthy body_config_not_dict)
  then show "fst (compute_impact_unified_any ios env cls meth mods ents config w)
            = Inr \<lparr>severity = [], message = []\<rparr>"
    unfolding compute_any_empty_iff by blast
next
  assume a: "config = PDict c \<and> map_of c ''weights'' = Some wv \<and> truthy wv \<and> (\<forall>d. wv \<noteq> PDict d)"
  then have "c \<noteq> []" by auto
  with a have "fst (effective_config_any env config) = PDict c"
    by (simp add: effective_config_any_truthy)
  with a body_weights_not_dict [of c wv ios cls meth mods ents w]
  show "fst (compute_impact_unified_any ios env cls meth mods ents config w)
            = Inr \<lparr>severity = [], message = []\<rparr>"
    unfolding compute_any_empty_iff by simp
next
  assume a: "config = PDict c \<and> map_of c ''weights'' = Some (PDict wd)
         \<and> map_of wd ''per_mod'' = Some v \<and> py_int ios v = Inl e0"
  then have "c \<noteq> []" by auto
  with a have "fst (effective_config_any env config) = PDict c"
    by (simp add: effective_config_any_truthy)
  with a body_weight_not_int [of c wd v ios e0 cls meth mods ents w]
  show "fst (compute_impact_unified_any ios env cls meth mods ents config w)
            = Inr \<lparr>severity = [], message = []\<rparr>"
    unfolding compute_any_empty_iff by simp
next
  assume a: "truthy cls \<and> (\<forall>s. cls \<noteq> PStr s)"
  with body_cls_not_str [of cls ios "fst (effective_config_any env config)" meth mods ents w]
  show "fst (compute_impact_unified_any ios env cls meth mods ents config w)
            = Inr \<lparr>severity = [], message = []\<rparr>"
    unfolding compute_any_empty_iff by simp
qed

lemma wellformed_run:
  "fst (compute_impact_unified_any int_of_str_none no_external (PStr ''Foo'') (PStr ''Bar'')
          (PList [PStr ''m0'']) (PList []) PNone (PBool True))
     = Inr \<lparr>severity = ''Low'', message = ''impact.symptom.other impact.extra.wrapCoexist''\<rparr>"
proof -
  have d: "fst (effective_config no_external None) = IMPACT_DEFAULT_CONFIG"
    by (simp add: no_external_def effective_config_def get_default_impact_config_def
          load_external_default_def)
  have "impact_body int_of_str_none IMPACT_DEFAULT_CONFIG ''Foo'' ''Bar'' [''m0''] [] True
      = Inr \<lparr>severity = ''Low'', message = ''impact.symptom.other impact.extra.wrapCoexist''\<rparr>"
    by (simp add: impact_body_def impact_message_def classify_conflict_symptom_def
          SYMPTOM_KEYWORDS_def severity_of_score_def score_defs text_defs)
  then have "fst (compute_impact_unified int_of_str_none no_external ''Foo'' ''Bar'' [''m0''] [] None True)
      = \<lparr>severity = ''Low'', message = ''impact.symptom.other impact.extra.wrapCoexist''\<rparr>"
    by (simp add: compute_impact_unified_alt d)
  with compute_impact_unified_any_typed [of int_of_str_none no_external "''Foo''" "''Bar''"
         "[''m0'']" "[]" None True]
  show ?thesis by simp
qed

text \<open>
  A configuration whose \<open>weights\<close> is a list, a configuration that is a list, a
  \<open>per_mod\<close> weight \<open>None\<close>, and the class name \<open>5\<close> all give the empty result; the
  same call with well-formed arguments gives Low.
\<close>

theorem never_raises_witness:
  "fst (compute_impact_unified_any int_of_str_none no_external (PStr ''Foo'') (PStr ''Bar'')
          (PList [PStr ''m0'']) (PList []) weights_as_list (PBool True))
     = Inr \<lparr>severity = [], message = []\<rparr>
   \<and> fst (compute_impact_unified_any int_of_str_none no_external (PStr ''Foo'') (PStr ''Bar'')
          (PList [PStr ''m0'']) (PList []) (PList [PInt 1]) (PBool True))
     = Inr \<lparr>severity = [], message = []\<rparr>
   \<and> fst (compute_impact_unified_any int_of_str_none no_external (PStr ''Foo'') (PStr ''Bar'')
          (PList [PStr ''m0'']) (PList []) per_mod_none (PBool True))
     = Inr \<lparr>severity = [], message = []\<rparr>
   \<and> fst (compute_impact_unified_any int_of_str_none no_external (PInt 5) (PStr ''Bar'')
          (PList [PStr ''m0'']) (PList []) PNone (PBool True))
     = Inr \<lparr>severity = [], message = []\<rparr>
   \<and> fst (compute_impact_unified_any int_of_str_none no_external (PStr ''Foo'') (PStr ''Bar'')
          (PList [PStr ''m0'']) (PList []) PNone (PBool True))
     = Inr \<lparr>severity = ''Low'', message = ''impact.symptom.other impact.extra.wrapCoexist''\<rparr>"
proof -
  note nr = never_raises [where ios = int_of_str_none and env = no_external
      and meth = "PStr ''Bar''" and mods = "PList [PStr ''m0'']" and ents = "PList []"
      and w = "PBool True"]
  have 1: "fst (compute_impact_unified_any int_of_str_none no_external (PStr ''Foo'') (PStr ''Bar'')
          (PList [PStr ''m0'']) (PList []) weights_as_list (PBool True))
     = Inr \<lparr>severity = [], message = []\<rparr>"
    using nr [where cls = "PStr ''Foo''" and config = weights_as_list
        and c = "[(''weights'', PList [PInt 1]), (''thresholds'', PStr ''high'')]"
        and wv = "PList [PInt 1]"]
    by (simp add: weights_as_list_def)
  have 2: "fst (compute_impact_unified_any int_of_str_none no_external (PStr ''Foo'') (PStr ''Bar'')
          (PList [PStr ''m0'']) (PList []) (PList [PInt 1]) (PBool True))
     = Inr \<lparr>severity = [], message = []\<rparr>"
    using nr [where cls = "PStr ''Foo''" and config = "PList [PInt 1]"] by simp
  have 3: "fst (compute_impact_unified_any int_of_str_none no_external (PStr ''Foo'') (PStr ''Bar'')
          (PList [PStr ''m0'']) (PList []) per_mod_none (PBool True))
     = Inr \<lparr>severity = [], message = []\<rparr>"
    using nr [where cls = "PStr ''Foo''" and config = per_mod_none
        and c = "[(''weights'', PDict [(''per_mod'', PNone)])]"
        and wd = "[(''per_mod'', PNone)]" and v = PNone and ?e0.0 = TypeError]
    by (simp add: per_mod_none_def)
  have 4: "fst (compute_impact_unified_any int_of_str_none no_external (PInt 5) (PStr ''Bar'')
          (PList [PStr ''m0'']) (PList []) PNone (PBool True))
     = Inr \<lparr>severity = [], message = []\<rparr>"
    using nr [where cls = "PInt 5" and config = PNone] by simp
  from 1 2 3 4 wellformed_run show ?thesis by blast
qed










section \<open>The scanner on whole files\<close>

lemma scan_file_read: "rd p = Some src \<Longrightarrow> scan_file rd p = fst (scan_state p (splitlines src))"
  by (simp add: scan_file_def scan_lines_def)

lemma scan_state_Nil: "scan_state p [] = ([], [])"
  by (simp add: scan_state_def)

lemma scan_state_snoc:
  "scan_state p (ls @ [l]) = scan_step p (scan_state p ls) (Suc (length ls), l)"
proof -
  have e: "[1 ..< Suc (Suc (length ls))] = [1 ..< Suc (length ls)] @ [Suc (length ls)]"
    by (rule upt_Suc_append) simp
  have n: "length [1 ..< Suc (length ls)] = length ls"
    by (simp only: length_upt diff_Suc_1)
  have "zip ([1 ..< Suc (length ls)] @ [Suc (length ls)]) (ls @ [l])
      = zip [1 ..< Suc (length ls)] ls @ zip [Suc (length ls)] [l]"
    by (rule zip_append [OF n])
  then show ?thesis
    unfolding scan_state_def length_append_singleton e by simp
qed

lemma scan_step_func_line:
  "is_func_line line m \<Longrightarrow> pend \<noteq> [] \<Longrightarrow>
   scan_step p (ents, pend) (idx, line) = (ents @ flush p m (strip line) pend, [])"
  by (simp add: scan_step_flush is_func_line_def)

lemma scan_step_annotation:
  "ANNOTATION_RE_match line = Some (ann, g) \<Longrightarrow>
   scan_step p (ents, pend) (idx, line) = (ents, pend @ [(ann, annotation_classes ann g, idx)])"
  by (simp add: scan_step_def)

lemma scan_state_no_annotation:
  "\<forall>l \<in> set ls. ANNOTATION_RE_match l = None \<Longrightarrow> scan_state p ls = ([], [])"
proof (induction ls rule: rev_induct)
  case Nil
  show ?case by (rule scan_state_Nil)
next
  case (snoc l ls)
  then have "scan_state p ls = ([], [])" "ANNOTATION_RE_match l = None" by simp_all
  then show ?case by (simp add: scan_state_snoc scan_step_no_pending)
qed

lemma scan_state_one_annotation:
  assumes "ANNOTATION_RE_match l1 = Some (a1, g1)"
  shows "scan_state p [l1] = ([], [(a1, annotation_classes a1 g1, 1)])"
  using scan_state_snoc [of p "[]" l1] assms
  by (simp add: scan_state_Nil scan_step_annotation)

lemma scan_state_two_annotations:
  assumes "ANNOTATION_RE_match l1 = Some (a1, g1)" "ANNOTATION_RE_match l2 = Some (a2, g2)"
  shows "scan_state p [l1, l2]
       = ([], [(a1, annotation_classes a1 g1, 1), (a2, annotation_classes a2 g2, 2)])"
  using scan_state_snoc [of p "[l1]" l2] assms
  by (simp add: scan_state_one_annotation scan_step_annotation)

lemma scan_file_flush_at_end:
  assumes "rd p = Some src" "splitlines src = ls @ [line]" "scan_state p ls = (ents, pend)"
    "pend \<noteq> []" "is_func_line line m"
  shows "scan_file rd p = ents @ flush p m (strip line) pend"
  using assms by (simp add: scan_file_read scan_state_snoc scan_step_func_line)

lemma scan_file_stacked:
  assumes "rd p = Some src" "splitlines src = [l1, l2, l3]"
    "ANNOTATION_RE_match l1 = Some (a1, g1)" "ANNOTATION_RE_match l2 = Some (a2, g2)"
    "is_func_line l3 m"
  shows "scan_file rd p
       = flush p m (strip l3) [(a1, annotation_classes a1 g1, 1), (a2, annotation_classes a2 g2, 2)]"
  using scan_file_flush_at_end [of rd p src "[l1, l2]" l3 "[]"
          "[(a1, annotation_classes a1 g1, 1), (a2, annotation_classes a2 g2, 2)]" m] assms
  by (simp add: scan_state_two_annotations)

lemma scan_file_single:
  assumes "rd p = Some src" "splitlines src = [l1, l2]"
    "ANNOTATION_RE_match l1 = Some (a1, g1)" "is_func_line l2 m"
  shows "scan_file rd p = flush p m (strip l2) [(a1, annotation_classes a1 g1, 1)]"
  using scan_file_flush_at_end [of rd p src "[l1]" l2 "[]" "[(a1, annotation_classes a1 g1, 1)]" m]
    assms
  by (simp add: scan_state_one_annotation)

lemma scan_file_no_annotation:
  assumes "rd p = Some src" "\<forall>l \<in> set (splitlines src). ANNOTATION_RE_match l = None"
  shows "scan_file rd p = []"
  using assms by (simp add: scan_file_read scan_state_no_annotation)

lemma example_lines:
  "splitlines stacked_text
     = [''@replaceMethod(Foo)'', ''@wrapMethod(Foo)'', ''func Bar(a: Int32) -> Int32 {'']"
  "splitlines multi_class_text = [''@replaceMethod(Foo, Bar)'', ''func Baz()'']"
  "splitlines bare_text = [''func Baz()'']"
  by code_simp+

lemma example_matches:
  "ANNOTATION_RE_match ''@replaceMethod(Foo)'' = Some (''replaceMethod'', ''Foo'')"
  "ANNOTATION_RE_match ''@wrapMethod(Foo)'' = Some (''wrapMethod'', ''Foo'')"
  "ANNOTATION_RE_match ''@replaceMethod(Foo, Bar)'' = Some (''replaceMethod'', ''Foo, Bar'')"
  "ANNOTATION_RE_match ''func Baz()'' = None"
  "is_func_line ''func Bar(a: Int32) -> Int32 {'' ''Bar''"
  "is_func_line ''func Baz()'' ''Baz''"
  "strip ''func Bar(a: Int32) -> Int32 {'' = ''func Bar(a: Int32) -> Int32 {''"
  "strip ''func Baz()'' = ''func Baz()''"
  "annotation_classes ''replaceMethod'' ''Foo'' = [''Foo'']"
  "annotation_classes ''wrapMethod'' ''Foo'' = [''Foo'']"
  "annotation_classes ''replaceMethod'' ''Foo, Bar'' = [''Foo'', ''Bar'']"
  by code_simp+

lemma scan_file_stacked_text:
  assumes "rd p = Some stacked_text"
  shows "scan_file rd p =
     [\<lparr>e_annotation = ''replaceMethod'', e_class = ''Foo'', e_method = ''Bar'',
        e_func_sig = ''func Bar(a: Int32) -> Int32 {'', e_file = p, e_line = 1\<rparr>,
      \<lparr>e_annotation = ''wrapMethod'', e_class = ''Foo'', e_method = ''Bar'',
        e_func_sig = ''func Bar(a: Int32) -> Int32 {'', e_file = p, e_line = 2\<rparr>]"
  using scan_file_stacked [of rd p stacked_text "''@replaceMethod(Foo)''" "''@wrapMethod(Foo)''"
          "''func Bar(a: Int32) -> Int32 {''" "''replaceMethod''" "''Foo''" "''wrapMethod''" "''Foo''"
          "''Bar''"] assms
  by (simp add: example_lines example_matches flush_def)

lemma scan_file_multi_class_text:
  assumes "rd p = Some multi_class_text"
  shows "scan_file rd p =
     [\<lparr>e_annotation = ''replaceMethod'', e_class = ''Foo'', e_method = ''Baz'',
        e_func_sig = ''func Baz()'', e_file = p, e_line = 1\<rparr>,
      \<lparr>e_annotation = ''replaceMethod'', e_class = ''Bar'', e_method = ''Baz'',
        e_func_sig = ''func Baz()'', e_file = p, e_line = 1\<rparr>]"
  using scan_file_single [of rd p multi_class_text "''@replaceMethod(Foo, Bar)''" "''func Baz()''"
          "''replaceMethod''" "''Foo, Bar''" "''Baz''"] assms
  by (simp add: example_lines example_matches flush_def)

lemma scan_file_bare_text:
  assumes "rd p = Some bare_text"
  shows "scan_file rd p = []"
  using scan_file_no_annotation [of rd p bare_text] assms
  by (simp add: example_lines example_matches)

text \<open>
  Claim C5. When the last line of a file is taken as a function declaration naming \<open>m\<close>
  and the pending buffer is not empty, \<open>scan_file\<close> returns what it had collected followed
  by \<open>flush\<close>, and the same holds for the step of the loop at any line; \<open>flush\<close> holds one
  entry per pending annotation and class of it, in order, all with the method \<open>m\<close>, so
  their number is the sum of the lengths of the class lists. A file of two annotation lines
  and a declaration gives the entries of both annotations; a file of one annotation line
  and a declaration gives one entry per class of it; a file with no annotation line gives
  none, and with an empty buffer a line that is no annotation adds nothing. The three
  files of the examples give two entries naming \<open>Bar\<close>, two entries naming \<open>Baz\<close>, and
  none.
\<close>

theorem flush_one_per_pair:
  "(rd p = Some src \<and> splitlines src = ls @ [line] \<and> scan_state p ls = (ents, pend)
      \<and> pend \<noteq> [] \<and> is_func_line line m
     \<longrightarrow> scan_file rd p = ents @ flush p m (strip line) pend)
   \<and> (is_func_line line m \<and> pend \<noteq> []
     \<longrightarrow> scan_step p (ents, pend) (idx, line) = (ents @ flush p m (strip line) pend, []))
   \<and> map (\<lambda>e. (e_annotation e, e_class e, e_method e, e_line e)) (flush p m sg pend)
       = concat (map (\<lambda>(ann, classes, l). map (\<lambda>c. (ann, c, m, l)) classes) pend)
   \<and> length (flush p m sg pend) = sum_list (map (\<lambda>(ann, classes, l). length classes) pend)
   \<and> (rd p = Some src \<and> splitlines src = [l1, l2, l3]
        \<and> ANNOTATION_RE_match l1 = Some (a1, g1) \<and> ANNOTATION_RE_match l2 = Some (a2, g2)
        \<and> is_func_line l3 m
     \<longrightarrow> scan_file rd p
         = flush p m (strip l3)
             [(a1, annotation_classes a1 g1, 1), (a2, annotation_classes a2 g2, 2)])
   \<and> (rd p = Some src \<and> splitlines src = [l1, l2]
        \<and> ANNOTATION_RE_match l1 = Some (a1, g1) \<and> is_func_line l2 m
     \<longrightarrow> scan_file rd p = flush p m (strip l2) [(a1, annotation_classes a1 g1, 1)])
   \<and> (rd p = Some src \<and> (\<forall>l \<in> set (splitlines src). ANNOTATION_RE_match l = None)
     \<longrightarrow> scan_file rd p = [])
   \<and> (ANNOTATION_RE_match line = None \<longrightarrow> scan_step p (ents, []) (idx, line) = (ents, []))
   \<and> (rd p = Some stacked_text \<longrightarrow> scan_file rd p =
       [\<lparr>e_annotation = ''replaceMethod'', e_class = ''Foo'', e_method = ''Bar'',
          e_func_sig = ''func Bar(a: Int32) -> Int32 {'', e_file = p, e_line = 1\<rparr>,
        \<lparr>e_annotation = ''wrapMethod'', e_class = ''Foo'', e_method = ''Bar'',
          e_func_sig = ''func Bar(a: Int32) -> Int32 {'', e_file = p, e_line = 2\<rparr>])
   \<and> (rd p = Some multi_class_text \<longrightarrow> scan_file rd p =
       [\<lparr>e_annotation = ''replaceMethod'', e_class = ''Foo'', e_method = ''Baz'',
          e_func_sig = ''func Baz()'', e_file = p, e_line = 1\<rparr>,
        \<lparr>e_annotation = ''replaceMethod'', e_class = ''Bar'', e_method = ''Baz'',
          e_func_sig = ''func Baz()'', e_file = p, e_line = 1\<rparr>])
   \<and> (rd p = Some bare_text \<longrightarrow> scan_file rd p = [])
   \<and> scan_lines p stacked_lines =
       [\<lparr>e_annotation = ''replaceMethod'', e_class = ''Foo'', e_method = ''Bar'',
          e_func_sig = ''func Bar(a: Int32) -> Int32 {'', e_file = p, e_line = 1\<rparr>,
        \<lparr>e_annotation = ''wrapMethod'', e_class = ''Foo'', e_method = ''Bar'',
          e_func_sig = ''func Bar(a: Int32) -> Int32 {'', e_file = p, e_line = 2\<rparr>]
   \<and> scan_lines p multi_class_lines =
       [\<lparr>e_annotation = ''replaceMethod'', e_class = ''Foo'', e_method = ''Baz'',
          e_func_sig = ''func Baz()'', e_file = p, e_line = 1\<rparr>,
        \<lparr>e_annotation = ''replaceMethod'', e_class = ''Bar'', e_method = ''Baz'',
          e_func_sig = ''func Baz()'', e_file = p, e_line = 1\<rparr>]
   \<and> scan_lines p [''func Baz()''] = []"
proof (intro conjI impI)
  assume "rd p = Some src \<and> splitlines src = ls @ [line] \<and> scan_state p ls = (ents, pend)
      \<and> pend \<noteq> [] \<and> is_func_line line m"
  then show "scan_file rd p = ents @ flush p m (strip line) pend"
    using scan_file_flush_at_end by blast
next
  assume "is_func_line line m \<and> pend \<noteq> []"
  then show "scan_step p (ents, pend) (idx, line) = (ents @ flush p m (strip line) pend, [])"
    using scan_step_func_line by blast
next
  show "map (\<lambda>e. (e_annotation e, e_class e, e_method e, e_line e)) (flush p m sg pend)
       = concat (map (\<lambda>(ann, classes, l). map (\<lambda>c. (ann, c, m, l)) classes) pend)"
    by (rule flush_pairs)
next
  show "length (flush p m sg pend) = sum_list (map (\<lambda>(ann, classes, l). length classes) pend)"
    by (rule flush_length)
next
  assume "rd p = Some src \<and> splitlines src = [l1, l2, l3]
        \<and> ANNOTATION_RE_match l1 = Some (a1, g1) \<and> ANNOTATION_RE_match l2 = Some (a2, g2)
        \<and> is_func_line l3 m"
  then show "scan_file rd p
         = flush p m (strip l3)
             [(a1, annotation_classes a1 g1, 1), (a2, annotation_classes a2 g2, 2)]"
    using scan_file_stacked by blast
next
  assume "rd p = Some src \<and> splitlines src = [l1, l2]
        \<and> ANNOTATION_RE_match l1 = Some (a1, g1) \<and> is_func_line l2 m"
  then show "scan_file rd p = flush p m (strip l2) [(a1, annotation_classes a1 g1, 1)]"
    using scan_file_single by blast
next
  assume "rd p = Some src \<and> (\<forall>l \<in> set (splitlines src). ANNOTATION_RE_match l = None)"
  then show "scan_file rd p = []"
    using scan_file_no_annotation by blast
next
  assume "ANNOTATION_RE_match line = None"
  then show "scan_step p (ents, []) (idx, line) = (ents, [])"
    by (rule scan_step_no_pending)
next
  assume "rd p = Some stacked_text"
  then show "scan_file rd p =
       [\<lparr>e_annotation = ''replaceMethod'', e_class = ''Foo'', e_method = ''Bar'',
          e_func_sig = ''func Bar(a: Int32) -> Int32 {'', e_file = p, e_line = 1\<rparr>,
        \<lparr>e_annotation = ''wrapMethod'', e_class = ''Foo'', e_method = ''Bar'',
          e_func_sig = ''func Bar(a: Int32) -> Int32 {'', e_file = p, e_line = 2\<rparr>]"
    by (rule scan_file_stacked_text)
next
  assume "rd p = Some multi_class_text"
  then show "scan_file rd p =
       [\<lparr>e_annotation = ''replaceMethod'', e_class = ''Foo'', e_method = ''Baz'',
          e_func_sig = ''func Baz()'', e_file = p, e_line = 1\<rparr>,
        \<lparr>e_annotation = ''replaceMethod'', e_class = ''Bar'', e_method = ''Baz'',
          e_func_sig = ''func Baz()'', e_file = p, e_line = 1\<rparr>]"
    by (rule scan_file_multi_class_text)
next
  assume "rd p = Some bare_text"
  then show "scan_file rd p = []"
    by (rule scan_file_bare_text)
next
  show "scan_lines p stacked_lines =
       [\<lparr>e_annotation = ''replaceMethod'', e_class = ''Foo'', e_method = ''Bar'',
          e_func_sig = ''func Bar(a: Int32) -> Int32 {'', e_file = p, e_line = 1\<rparr>,
        \<lparr>e_annotation = ''wrapMethod'', e_class = ''Foo'', e_method = ''Bar'',
          e_func_sig = ''func Bar(a: Int32) -> Int32 {'', e_file = p, e_line = 2\<rparr>]"
    by (rule scan_stacked)
next
  show "scan_lines p multi_class_lines =
       [\<lparr>e_annotation = ''replaceMethod'', e_class = ''Foo'', e_method = ''Baz'',
          e_func_sig = ''func Baz()'', e_file = p, e_line = 1\<rparr>,
        \<lparr>e_annotation = ''replaceMethod'', e_class = ''Bar'', e_method = ''Baz'',
          e_func_sig = ''func Baz()'', e_file = p, e_line = 1\<rparr>]"
    by (rule scan_multi_class)
next
  show "scan_lines p [''func Baz()''] = []"
    by (rule scan_bare_func)
qed

text \<open>
  The three files read through \<open>scan_file\<close>, and a buffer of two annotations, the first
  with two classes, flushed at \<open>func Baz()\<close>: three entries.
\<close>

theorem flush_one_per_pair_witness:
  "scan_file scan_examples [''stacked.reds''] =
     [\<lparr>e_annotation = ''replaceMethod'', e_class = ''Foo'', e_method = ''Bar'',
        e_func_sig = ''func Bar(a: Int32) -> Int32 {'', e_file = [''stacked.reds''], e_line = 1\<rparr>,
      \<lparr>e_annotation = ''wrapMethod'', e_class = ''Foo'', e_method = ''Bar'',
        e_func_sig = ''func Bar(a: Int32) -> Int32 {'', e_file = [''stacked.reds''], e_line = 2\<rparr>]
   \<and> scan_file scan_examples [''multi.reds''] =
     [\<lparr>e_annotation = ''replaceMethod'', e_class = ''Foo'', e_method = ''Baz'',
        e_func_sig = ''func Baz()'', e_file = [''multi.reds''], e_line = 1\<rparr>,
      \<lparr>e_annotation = ''replaceMethod'', e_class = ''Bar'', e_method = ''Baz'',
        e_func_sig = ''func Baz()'', e_file = [''multi.reds''], e_line = 1\<rparr>]
   \<and> scan_file scan_examples [''bare.reds''] = []
   \<and> scan_step [''a.reds''] ([], [(''replaceMethod'', [''Foo'', ''Bar''], 1), (''wrapMethod'', [''Foo''], 2)])
        (3, ''func Baz()'')
     = (flush [''a.reds''] ''Baz'' ''func Baz()''
          [(''replaceMethod'', [''Foo'', ''Bar''], 1), (''wrapMethod'', [''Foo''], 2)], [])
   \<and> length (flush [''a.reds''] ''Baz'' ''func Baz()''
          [(''replaceMethod'', [''Foo'', ''Bar''], 1), (''wrapMethod'', [''Foo''], 2)]) = 3"
proof -
  have r: "scan_examples [''stacked.reds''] = Some stacked_text"
    "scan_examples [''multi.reds''] = Some multi_class_text"
    "scan_examples [''bare.reds''] = Some bare_text"
    by (simp_all add: scan_examples_def)
  have 1: "scan_file scan_examples [''stacked.reds''] =
     [\<lparr>e_annotation = ''replaceMethod'', e_class = ''Foo'', e_method = ''Bar'',
        e_func_sig = ''func Bar(a: Int32) -> Int32 {'', e_file = [''stacked.reds''], e_line = 1\<rparr>,
      \<lparr>e_annotation = ''wrapMethod'', e_class = ''Foo'', e_method = ''Bar'',
        e_func_sig = ''func Bar(a: Int32) -> Int32 {'', e_file = [''stacked.reds''], e_line = 2\<rparr>]"
    using flush_one_per_pair [where rd = scan_examples and p = "[''stacked.reds'']"
        and src = stacked_text
        and ?l1.0 = "''@replaceMethod(Foo)''" and ?l2.0 = "''@wrapMethod(Foo)''"
        and ?l3.0 = "''func Bar(a: Int32) -> Int32 {''" and m = "''Bar''"
        and ?a1.0 = "''replaceMethod''" and ?g1.0 = "''Foo''"
        and ?a2.0 = "''wrapMethod''" and ?g2.0 = "''Foo''"]
    by (simp add: r example_lines example_matches flush_def)
  have 2: "scan_file scan_examples [''multi.reds''] =
     [\<lparr>e_annotation = ''replaceMethod'', e_class = ''Foo'', e_method = ''Baz'',
        e_func_sig = ''func Baz()'', e_file = [''multi.reds''], e_line = 1\<rparr>,
      \<lparr>e_annotation = ''replaceMethod'', e_class = ''Bar'', e_method = ''Baz'',
        e_func_sig = ''func Baz()'', e_file = [''multi.reds''], e_line = 1\<rparr>]"
    using flush_one_per_pair [where rd = scan_examples and p = "[''multi.reds'']"
        and src = multi_class_text
        and ?l1.0 = "''@replaceMethod(Foo, Bar)''" and ?l2.0 = "''func Baz()''" and m = "''Baz''"
        and ?a1.0 = "''replaceMethod''" and ?g1.0 = "''Foo, Bar''"]
    by (simp add: r example_lines example_matches flush_def)
  have 3: "scan_file scan_examples [''bare.reds''] = []"
    using flush_one_per_pair [where rd = scan_examples and p = "[''bare.reds'']"
        and src = bare_text]
    by (simp add: r example_lines example_matches)
  have 4: "scan_step [''a.reds''] ([], [(''replaceMethod'', [''Foo'', ''Bar''], 1), (''wrapMethod'', [''Foo''], 2)])
        (3, ''func Baz()'')
     = (flush [''a.reds''] ''Baz'' ''func Baz()''
          [(''replaceMethod'', [''Foo'', ''Bar''], 1), (''wrapMethod'', [''Foo''], 2)], [])
   \<and> length (flush [''a.reds''] ''Baz'' ''func Baz()''
          [(''replaceMethod'', [''Foo'', ''Bar''], 1), (''wrapMethod'', [''Foo''], 2)]) = 3"
    using flush_one_per_pair [where line = "''func Baz()''" and m = "''Baz''"
        and pend = "[(''replaceMethod'', [''Foo'', ''Bar''], 1), (''wrapMethod'', [''Foo''], 2)]"
        and p = "[''a.reds'']" and ents = "[]" and idx = 3 and sg = "''func Baz()''"]
    by (simp add: example_matches)
  from 1 2 3 4 show ?thesis by blast
qed

end
